theory Spec2Isabelle
  imports Complex_Main "HOL-Library.Sublist"
begin

section \<open>Alerts\<close>

text \<open>
  The three map views of the repository share one input type, the interface \<open>Alert\<close>.
  The TypeScript type restricts \<open>type\<close> and \<open>status\<close> to three tags each, but the
  helper functions take a plain \<open>string\<close> and have a \<open>default\<close> branch, so both fields
  are strings here. Coordinates are JavaScript numbers that the code only copies; they
  are reals, so NaN and the infinities are not among the inputs. Strings are byte lists; a character outside ASCII is its UTF-8 bytes, as in
  the source files. The field \<open>id\<close> is called \<open>alert_id\<close> (\<open>id\<close> is the identity of HOL).
\<close>

record alert =
  alert_id :: string
  sosId :: string
  type :: string
  latitude :: real
  longitude :: real
  status :: string

section \<open>Icons and colours\<close>

text \<open>The four emoji of \<open>getTypeIcon\<close>: U+1F691, U+1F694, U+1F692 and U+1F6A8.\<close>

definition ambulance :: string where
  "ambulance = [CHR 0xF0, CHR 0x9F, CHR 0x9A, CHR 0x91]"

definition police_car :: string where
  "police_car = [CHR 0xF0, CHR 0x9F, CHR 0x9A, CHR 0x94]"

definition fire_engine :: string where
  "fire_engine = [CHR 0xF0, CHR 0x9F, CHR 0x9A, CHR 0x92]"

definition siren :: string where
  "siren = [CHR 0xF0, CHR 0x9F, CHR 0x9A, CHR 0xA8]"

text \<open>\<open>getTypeIcon\<close> is the same function in all three views.\<close>

definition getTypeIcon :: "string \<Rightarrow> string" where
  "getTypeIcon t =
     (if t = ''MEDICAL'' then ambulance
      else if t = ''POLICE'' then police_car
      else if t = ''FIRE'' then fire_engine
      else siren)"

text \<open>\<open>getStatusColor\<close> of the Leaflet view returns a CSS colour.\<close>

definition getStatusColor_leaflet :: "string \<Rightarrow> string" where
  "getStatusColor_leaflet st =
     (if st = ''PENDING'' then ''#ef4444''
      else if st = ''ASSIGNED'' then ''#f59e0b''
      else if st = ''RESOLVED'' then ''#10b981''
      else ''#6b7280'')"

text \<open>\<open>getStatusColor\<close> of the two Mapbox views returns theme class names.\<close>

definition getStatusColor :: "string \<Rightarrow> string" where
  "getStatusColor st =
     (if st = ''PENDING'' then ''border-pending bg-pending/20''
      else if st = ''ASSIGNED'' then ''border-assigned bg-assigned/20''
      else if st = ''RESOLVED'' then ''border-resolved bg-resolved/20''
      else ''border-muted bg-muted/20'')"

section \<open>The Leaflet view\<close>

type_synonym latlng = "real \<times> real"

record divIcon =
  icon_html :: string
  icon_className :: string
  iconSize :: "real \<times> real"
  iconAnchor :: "real \<times> real"

definition createCustomIcon :: "string \<Rightarrow> string \<Rightarrow> divIcon" where
  \<open>createCustomIcon t st =
     (let color = getStatusColor_leaflet st;
          emoji = getTypeIcon t
      in \<lparr>icon_html =
            ''\<newline>      <div style="\<newline>        background-color: '' @ color @
            ''; \<newline>        width: 32px; \<newline>        height: 32px; \<newline>        border-radius: 50%; \<newline>        display: flex; \<newline>        align-items: center; \<newline>        justify-content: center; \<newline>        border: 2px solid white; \<newline>        box-shadow: 0 2px 4px rgba(0,0,0,0.2);\<newline>        font-size: 16px;\<newline>      ">\<newline>        '' @
            emoji @ ''\<newline>      </div>\<newline>    '',
          icon_className = ''custom-marker'',
          iconSize = (32, 32),
          iconAnchor = (16, 16)\<rparr>)\<close>

text \<open>
  The popup of a Leaflet marker is a tree of JSX elements: a tag, a class name and the
  children; an expression in braces is a text child of its own.
\<close>

datatype jsx = Element string string "jsx list" | Text string

fun texts :: "jsx \<Rightarrow> string list" where
  "texts (Text s) = [s]"
| "texts (Element tag cls kids) = concat (map texts kids)"

record leaflet_marker =
  lf_key :: string
  lf_position :: latlng
  lf_icon :: divIcon
  lf_popup :: jsx

definition leaflet_popup :: "alert \<Rightarrow> jsx" where
  "leaflet_popup a =
     Element ''div'' ''p-2''
       [Element ''h3'' ''font-semibold'' [Text (type a), Text '' Alert''],
        Element ''p'' ''text-sm text-gray-600'' [Text ''SOS ID: '', Text (sosId a)],
        Element ''p'' ''text-sm'' [Text ''Status: '', Text (status a)]]"

text \<open>The \<open>alerts.map\<close> of the Leaflet \<open>MapView\<close>: one \<open>Marker\<close> element per alert.\<close>

definition leaflet_markers :: "alert list \<Rightarrow> leaflet_marker list" where
  "leaflet_markers as =
     map (\<lambda>a. \<lparr>lf_key = alert_id a,
               lf_position = (latitude a, longitude a),
               lf_icon = createCustomIcon (type a) (status a),
               lf_popup = leaflet_popup a\<rparr>) as"

text \<open>
  The camera of a Leaflet map is what the last call on the map asked for: a centre and
  a zoom (\<open>setView\<close>, or the props of \<open>MapContainer\<close>), or the bounds of a group of
  markers, padded by a ratio (\<open>fitBounds (group.getBounds().pad r)\<close>). The bounds are
  kept as the positions of the markers of the group: Leaflet computes the box.
\<close>

datatype leaflet_camera = SetView latlng real | FitGroup "latlng list" real

definition leaflet_initial :: leaflet_camera where
  "leaflet_initial = SetView (28.6139, 77.2090) 10"

text \<open>The effect of the component \<open>FitBounds\<close>, run on the map when the alerts change.\<close>

definition FitBounds :: "alert list \<Rightarrow> leaflet_camera \<Rightarrow> leaflet_camera" where
  "FitBounds as cam =
     (if length as > 0
      then FitGroup (map (\<lambda>a. (latitude a, longitude a)) as) 0.1
      else SetView (28.6139, 77.2090) 10)"

section \<open>The Mapbox SDK, as far as the views use it\<close>

text \<open>
  The two Mapbox views (token typed by the user, token fetched from the server) hold SDK
  objects in refs and mutate them. The objects are modelled by what the calls of the
  views leave in them. A marker is an object with an identity: it lives in a store under
  a handle, and \<open>markers.current\<close> is a list of handles, so that \<open>marker.setPopup\<close> after
  \<open>marker.addTo\<close> changes the marker that is on the map. \<open>on_map\<close> is the map the marker
  is attached to (\<open>addTo\<close> sets it, \<open>remove\<close> clears it).

  The SDK converts the argument of \<open>setLngLat\<close> to a \<open>LngLat\<close>, whose constructor throws
  for a latitude outside [-90, 90]; any longitude is taken. The views call it without a
  guard, so the throw leaves the effect that made the call.
\<close>

datatype sdk_error = InvalidLatitude real

definition valid_latitude :: "real \<Rightarrow> bool" where
  "valid_latitude lat \<longleftrightarrow> \<not> (lat > 90 \<or> lat < -90)"

type_synonym lnglat = "real \<times> real"

record element =
  className :: string
  innerHTML :: string
  title :: string

record popup =
  offset :: real
  popup_html :: string

record marker =
  marker_element :: element
  lngLat :: lnglat
  marker_popup :: "popup option"
  on_map :: "nat option"

text \<open>
  \<open>LngLatBounds\<close>: the points it was extended with, in order (the SDK computes the box).
\<close>

type_synonym lngLatBounds = "lnglat list"

definition bounds_extend :: "lngLatBounds \<Rightarrow> lnglat \<Rightarrow> lngLatBounds" where
  "bounds_extend b p = b @ [p]"

text \<open>
  The camera of a map is what the last call asked for: the centre and zoom of the
  constructor, or \<open>fitBounds\<close> with its bounds and padding.
\<close>

datatype camera = CenterZoom lnglat real | Fitted lngLatBounds real

record mapbox_map =
  map_id :: nat
  map_accessToken :: string
  map_style :: string
  camera :: camera
  controls :: "(string \<times> string) list"
  load_listener :: bool
  load_fired :: bool
  map_removed :: bool

section \<open>The state of a Mapbox view\<close>

text \<open>
  The props (\<open>alerts\<close>), the three \<open>useState\<close> cells, the three refs
  (\<open>mapContainer.current\<close> as the presence of the div), the SDK's global
  \<open>mapboxgl.accessToken\<close> and its objects, and the environment: the console and the
  remote functions invoked so far. The last three fields are React's own bookkeeping: a
  fetch whose promise has not settled, whether the last run of the map-init effect
  returned its cleanup, and whether the component is mounted. The view with the typed
  token has no \<open>tokenError\<close>; its operations never write the field.
\<close>

record mapview =
  alerts :: "alert list"
  mapboxToken :: string
  isMapLoaded :: bool
  tokenError :: bool
  mapContainer :: bool
  map_current :: "mapbox_map option"
  markers_current :: "nat list"
  accessToken :: string
  marker_store :: "nat \<Rightarrow> marker option"
  next_marker :: nat
  next_map :: nat
  console :: "string list"
  invoked :: "string list"
  fetch_pending :: bool
  init_cleanup :: bool
  mounted :: bool

section \<open>The effects of the Mapbox views\<close>

text \<open>
  The map-init effect and the marker-sync effect are the same text in both Mapbox views.
\<close>

definition new_map :: "nat \<Rightarrow> string \<Rightarrow> mapbox_map" where
  "new_map i tok =
     \<lparr>map_id = i, map_accessToken = tok,
      map_style = ''mapbox://styles/mapbox/light-v11'',
      camera = CenterZoom (77.2090, 28.6139) 10,
      controls = [], load_listener = False, load_fired = False, map_removed = False\<rparr>"

definition addControl :: "string \<Rightarrow> string \<Rightarrow> mapbox_map \<Rightarrow> mapbox_map" where
  "addControl c pos m = m\<lparr>controls := controls m @ [(c, pos)]\<rparr>"

definition on_load :: "mapbox_map \<Rightarrow> mapbox_map" where
  "on_load m = m\<lparr>load_listener := True\<rparr>"

text \<open>
  The body of the map-init effect. The guard returns without a cleanup;
  \<open>map_init_returns_cleanup\<close> says whether the run returned one.
\<close>

definition map_init_effect :: "mapview \<Rightarrow> mapview" where
  "map_init_effect s =
     (if \<not> mapContainer s \<or> mapboxToken s = [] then s
      else
        let s1 = s\<lparr>accessToken := mapboxToken s\<rparr>;
            m = new_map (next_map s1) (accessToken s1);
            m1 = addControl ''NavigationControl'' ''top-right'' m;
            m2 = on_load m1
        in s1\<lparr>map_current := Some m2, next_map := Suc (next_map s1)\<rparr>)"

definition map_init_returns_cleanup :: "mapview \<Rightarrow> bool" where
  "map_init_returns_cleanup s \<longleftrightarrow> \<not> (\<not> mapContainer s \<or> mapboxToken s = [])"

text \<open>The callback registered for the map's \<open>load\<close> event.\<close>

definition load_callback :: "mapview \<Rightarrow> mapview" where
  "load_callback s = s\<lparr>isMapLoaded := True\<rparr>"

text \<open>\<open>marker.remove()\<close> on the marker with handle \<open>h\<close>.\<close>

definition marker_remove :: "nat \<Rightarrow> mapview \<Rightarrow> mapview" where
  "marker_remove h s =
     s\<lparr>marker_store :=
         (marker_store s)(h := map_option (\<lambda>m. m\<lparr>on_map := None\<rparr>) (marker_store s h))\<rparr>"

text \<open>\<open>markers.current.forEach(marker => marker.remove()); markers.current = []\<close>\<close>

definition clear_markers :: "mapview \<Rightarrow> mapview" where
  "clear_markers s = (fold marker_remove (markers_current s) s)\<lparr>markers_current := []\<rparr>"

text \<open>The cleanup returned by the map-init effect.\<close>

definition map_init_cleanup :: "mapview \<Rightarrow> mapview" where
  "map_init_cleanup s =
     (let s1 = clear_markers s;
          s2 = s1\<lparr>map_current :=
                    map_option (\<lambda>m. m\<lparr>map_removed := True\<rparr>) (map_current s1)\<rparr>
      in s2\<lparr>isMapLoaded := False\<rparr>)"

definition marker_el :: "alert \<Rightarrow> element" where
  \<open>marker_el a =
     \<lparr>className =
        ''w-10 h-10 flex items-center justify-center rounded-full border-2 shadow-lg cursor-pointer hover:scale-110 transition-transform '' @
        getStatusColor (status a),
      innerHTML = ''<span class="text-lg">'' @ getTypeIcon (type a) @ ''</span>'',
      title = type a @ '' - SOS #'' @ sosId a\<rparr>\<close>

definition marker_popup_for :: "alert \<Rightarrow> popup" where
  \<open>marker_popup_for a =
     \<lparr>offset = 25,
      popup_html =
        ''\<newline>          <div class="p-2">\<newline>            <h3 class="font-semibold">'' @
        type a @
        '' Alert</h3>\<newline>            <p class="text-sm text-gray-600">SOS ID: '' @
        sosId a @
        ''</p>\<newline>            <p class="text-sm">Status: '' @
        status a @
        ''</p>\<newline>          </div>\<newline>        ''\<rparr>\<close>

text \<open>
  The body of \<open>alerts.forEach\<close> in the marker-sync effect: the element, the marker at
  \<open>[longitude, latitude]\<close> added to \<open>map.current\<close>, its popup, and the push. The effect
  calls it behind its guard only, where \<open>map.current\<close> is a map. When \<open>setLngLat\<close> throws,
  the marker has not been added to the map or pushed, and the state is as it was.
\<close>

definition add_marker :: "alert \<Rightarrow> mapview \<Rightarrow> sdk_error + mapview" where
  "add_marker a s =
     (let el = marker_el a;
          h = next_marker s
      in if \<not> valid_latitude (latitude a) then Inl (InvalidLatitude (latitude a))
         else
           let s1 = s\<lparr>marker_store := (marker_store s)
                      (h \<mapsto> \<lparr>marker_element = el, lngLat = (longitude a, latitude a),
                              marker_popup = None,
                              on_map = map_option map_id (map_current s)\<rparr>),
                  next_marker := Suc h\<rparr>;
               p = marker_popup_for a;
               s2 = s1\<lparr>marker_store := (marker_store s1)
                      (h := map_option (\<lambda>m. m\<lparr>marker_popup := Some p\<rparr>) (marker_store s1 h))\<rparr>
           in Inr (s2\<lparr>markers_current := markers_current s2 @ [h]\<rparr>))"

text \<open>
  An effect returns, or it throws and leaves the state as it was at the throw.
\<close>

datatype effect_result = Returned mapview | Threw sdk_error mapview

fun state_of :: "effect_result \<Rightarrow> mapview" where
  "state_of (Returned s) = s"
| "state_of (Threw e s) = s"

fun threw :: "effect_result \<Rightarrow> bool" where
  "threw (Returned s) = False"
| "threw (Threw e s) = True"

text \<open>\<open>alerts.forEach\<close>: the loop stops at the first alert whose marker throws.\<close>

fun add_markers :: "alert list \<Rightarrow> mapview \<Rightarrow> effect_result" where
  "add_markers [] s = Returned s"
| "add_markers (a # as) s =
     (case add_marker a s of
        Inl e \<Rightarrow> Threw e s
      | Inr s' \<Rightarrow> add_markers as s')"

definition fitBounds :: "lngLatBounds \<Rightarrow> real \<Rightarrow> mapbox_map \<Rightarrow> mapbox_map" where
  "fitBounds b pad m = m\<lparr>camera := Fitted b pad\<rparr>"

text \<open>
  The marker-sync effect. The bounds are built and fitted only when the loop over the
  alerts has returned.
\<close>

definition marker_sync_effect :: "mapview \<Rightarrow> effect_result" where
  "marker_sync_effect s =
     (if map_current s = None \<or> \<not> isMapLoaded s then Returned s
      else
        let s1 = clear_markers s
        in case add_markers (alerts s) s1 of
             Threw e s2 \<Rightarrow> Threw e s2
           | Returned s2 \<Rightarrow>
               if length (alerts s) > 0
               then let bounds = fold (\<lambda>a b. bounds_extend b (longitude a, latitude a)) (alerts s) []
                    in Returned (s2\<lparr>map_current := map_option (fitBounds bounds 50) (map_current s2)\<rparr>)
               else Returned s2)"

section \<open>The token of the view that fetches it\<close>

text \<open>
  What \<open>supabase.functions.invoke\<close> hands back: the promise rejects, or it resolves to
  \<open>{ data, error }\<close>. \<open>data\<close> is null or an object whose \<open>token\<close> is absent or a string
  (the shape the function is documented to return); \<open>error\<close> is null or an error object,
  kept as its message.
\<close>

record payload =
  token :: "string option"

record invoke_response =
  resp_data :: "payload option"
  resp_error :: "string option"

datatype invoke_result = Rejected string | Resolved invoke_response

text \<open>The call itself, made once by the effect with no dependencies.\<close>

definition invoke_token :: "mapview \<Rightarrow> mapview" where
  "invoke_token s = s\<lparr>invoked := invoked s @ [''get-mapbox-token''], fetch_pending := True\<rparr>"

definition catch_fetch :: "string \<Rightarrow> mapview \<Rightarrow> mapview" where
  "catch_fetch e s =
     s\<lparr>console := console s @ [''Error fetching Mapbox token:'', e], tokenError := True\<rparr>"

text \<open>
  \<open>fetchMapboxToken\<close> from the point where the awaited call settles; \<open>data?.token\<close> is
  truthy for a string that is not empty.
\<close>

definition fetchMapboxToken :: "invoke_result \<Rightarrow> mapview \<Rightarrow> mapview" where
  "fetchMapboxToken r s =
     (case r of
        Rejected e \<Rightarrow> catch_fetch e s
      | Resolved resp \<Rightarrow>
          (case resp_error resp of
             Some e \<Rightarrow> catch_fetch e s
           | None \<Rightarrow>
               (case resp_data resp of
                  None \<Rightarrow> s\<lparr>tokenError := True\<rparr>
                | Some d \<Rightarrow>
                    (case token d of
                       None \<Rightarrow> s\<lparr>tokenError := True\<rparr>
                     | Some t \<Rightarrow>
                         if t \<noteq> [] then s\<lparr>mapboxToken := t\<rparr>
                         else s\<lparr>tokenError := True\<rparr>))))"

section \<open>What the views render\<close>

datatype content =
    ErrorMessage string
  | LoadingMessage string
  | TokenForm string bool
  | MapArea

text \<open>The view with the fetched token.\<close>

definition render_fetched :: "mapview \<Rightarrow> content" where
  "render_fetched s =
     (if tokenError s
      then ErrorMessage ''Mapbox token not configured. Please contact administrator.''
      else if mapboxToken s = [] then LoadingMessage ''Loading map...''
      else MapArea)"

text \<open>
  The view with the typed token. \<open>trim\<close> strips the ASCII white space at both ends; the
  form shows the input's value and whether the button is disabled.
\<close>

definition is_space :: "char \<Rightarrow> bool" where
  "is_space c \<longleftrightarrow> c \<in> {CHR '' '', CHR 0x09, CHR 0x0A, CHR 0x0B, CHR 0x0C, CHR 0x0D}"

definition trim :: "string \<Rightarrow> string" where
  "trim s = rev (dropWhile is_space (rev (dropWhile is_space s)))"

definition render_typed :: "mapview \<Rightarrow> content" where
  "render_typed s =
     (if mapboxToken s = [] then TokenForm (mapboxToken s) (trim (mapboxToken s) = [])
      else MapArea)"

definition onChange :: "string \<Rightarrow> mapview \<Rightarrow> mapview" where
  "onChange v s = s\<lparr>mapboxToken := v\<rparr>"

definition handleTokenSubmit :: "mapview \<Rightarrow> mapview" where
  "handleTokenSubmit s = (if trim (mapboxToken s) \<noteq> [] then s else s)"

section \<open>The life of a Mapbox view\<close>

text \<open>
  React runs the effects: all three after the first render, and afterwards each one
  when a dependency of it has changed, its cleanup first. A state update is followed by a
  render, which attaches \<open>mapContainer.current\<close> when the map area is rendered and
  detaches it otherwise. One event is handled at a time. When an effect throws, React
  unmounts the view, which runs the cleanup of the map-init effect.
\<close>

definition initial :: "alert list \<Rightarrow> mapview" where
  "initial as =
     \<lparr>alerts = as, mapboxToken = [], isMapLoaded = False, tokenError = False,
      mapContainer = False, map_current = None, markers_current = [],
      accessToken = [], marker_store = (\<lambda>h. None), next_marker = 0, next_map = 0,
      console = [], invoked = [], fetch_pending = False, init_cleanup = False,
      mounted = True\<rparr>"

definition rerender :: "(mapview \<Rightarrow> content) \<Rightarrow> mapview \<Rightarrow> mapview" where
  "rerender render s = s\<lparr>mapContainer := (render s = MapArea)\<rparr>"

definition unmount :: "mapview \<Rightarrow> mapview" where
  "unmount s =
     (if init_cleanup s then map_init_cleanup s else s)
       \<lparr>mounted := False, mapContainer := False, init_cleanup := False\<rparr>"

fun settle :: "effect_result \<Rightarrow> mapview" where
  "settle (Returned s) = s"
| "settle (Threw e s) = unmount s"

text \<open>
  A run of the map-init effect (dependency \<open>mapboxToken\<close>): the cleanup of the run
  before, when that run returned one, then the body. The cleanup sets the loaded flag,
  a dependency of the marker-sync effect, which then runs and stops at its guard.
\<close>

definition run_map_init :: "mapview \<Rightarrow> mapview" where
  "run_map_init s =
     (let s1 = (if init_cleanup s then map_init_cleanup s else s);
          s2 = (map_init_effect s1)\<lparr>init_cleanup := map_init_returns_cleanup s1\<rparr>
      in if isMapLoaded s2 \<noteq> isMapLoaded s then settle (marker_sync_effect s2) else s2)"

text \<open>
  The map fires \<open>load\<close> once, to the listener registered by the map-init effect, and not
  after \<open>map.remove()\<close>.
\<close>

definition load_enabled :: "mapview \<Rightarrow> bool" where
  "load_enabled s =
     (case map_current s of
        None \<Rightarrow> False
      | Some m \<Rightarrow> load_listener m \<and> \<not> load_fired m \<and> \<not> map_removed m)"

definition fire_load :: "mapview \<Rightarrow> mapview" where
  "fire_load s =
     load_callback (s\<lparr>map_current := map_option (\<lambda>m. m\<lparr>load_fired := True\<rparr>) (map_current s)\<rparr>)"

text \<open>
  The events of a mounted view. \<open>FetchSettled\<close> belongs to the view that fetches its
  token, \<open>TokenTyped\<close> and \<open>SubmitClicked\<close> to the view where the user types it.
\<close>

datatype event =
    FetchSettled invoke_result
  | TokenTyped string
  | SubmitClicked
  | MapLoad
  | AlertsChanged "alert list"
  | Unmount

text \<open>The view with the fetched token: mount, then one event after the other.\<close>

definition mount_fetched :: "alert list \<Rightarrow> mapview" where
  "mount_fetched as =
     (let s0 = rerender render_fetched (initial as);
          s1 = invoke_token s0;
          s2 = (map_init_effect s1)\<lparr>init_cleanup := map_init_returns_cleanup s1\<rparr>
      in settle (marker_sync_effect s2))"

fun step_fetched :: "event \<Rightarrow> mapview \<Rightarrow> mapview" where
  "step_fetched (FetchSettled r) s =
     (if \<not> fetch_pending s then s
      else if \<not> mounted s
      then s\<lparr>fetch_pending := False, console := console (fetchMapboxToken r s)\<rparr>
      else
        let s1 = rerender render_fetched ((fetchMapboxToken r s)\<lparr>fetch_pending := False\<rparr>)
        in if mapboxToken s1 \<noteq> mapboxToken s then run_map_init s1 else s1)"
| "step_fetched MapLoad s =
     (if mounted s \<and> load_enabled s
      then settle (marker_sync_effect (rerender render_fetched (fire_load s)))
      else s)"
| "step_fetched (AlertsChanged as) s =
     (if mounted s then settle (marker_sync_effect (rerender render_fetched (s\<lparr>alerts := as\<rparr>)))
      else s)"
| "step_fetched Unmount s = (if mounted s then unmount s else s)"
| "step_fetched (TokenTyped v) s = s"
| "step_fetched SubmitClicked s = s"

definition run_fetched :: "alert list \<Rightarrow> event list \<Rightarrow> mapview" where
  "run_fetched as evs = fold step_fetched evs (mount_fetched as)"

text \<open>The view with the typed token.\<close>

definition mount_typed :: "alert list \<Rightarrow> mapview" where
  "mount_typed as =
     (let s0 = rerender render_typed (initial as);
          s1 = (map_init_effect s0)\<lparr>init_cleanup := map_init_returns_cleanup s0\<rparr>
      in settle (marker_sync_effect s1))"

fun step_typed :: "event \<Rightarrow> mapview \<Rightarrow> mapview" where
  "step_typed (TokenTyped v) s =
     (if \<not> mounted s \<or> render_typed s = MapArea then s
      else
        let s1 = rerender render_typed (onChange v s)
        in if mapboxToken s1 \<noteq> mapboxToken s then run_map_init s1 else s1)"
| "step_typed SubmitClicked s =
     (if \<not> mounted s \<or> render_typed s \<noteq> TokenForm (mapboxToken s) False then s
      else rerender render_typed (handleTokenSubmit s))"
| "step_typed MapLoad s =
     (if mounted s \<and> load_enabled s
      then settle (marker_sync_effect (rerender render_typed (fire_load s)))
      else s)"
| "step_typed (AlertsChanged as) s =
     (if mounted s then settle (marker_sync_effect (rerender render_typed (s\<lparr>alerts := as\<rparr>)))
      else s)"
| "step_typed Unmount s = (if mounted s then unmount s else s)"
| "step_typed (FetchSettled r) s = s"

definition run_typed :: "alert list \<Rightarrow> event list \<Rightarrow> mapview" where
  "run_typed as evs = fold step_typed evs (mount_typed as)"

section \<open>What is on the map\<close>

text \<open>
  The markers that are on a map, by handle, and the marker that the marker-sync effect
  builds for an alert on the map \<open>mid\<close>.
\<close>

definition attached :: "mapview \<Rightarrow> nat \<Rightarrow> bool" where
  "attached s h = (case marker_store s h of None \<Rightarrow> False | Some mk \<Rightarrow> on_map mk \<noteq> None)"

definition rendered :: "mapview \<Rightarrow> nat list" where
  "rendered s = filter (attached s) [0..<next_marker s]"

definition marker_for :: "nat option \<Rightarrow> alert \<Rightarrow> marker" where
  "marker_for mid a =
     \<lparr>marker_element = marker_el a, lngLat = (longitude a, latitude a),
      marker_popup = Some (marker_popup_for a), on_map = mid\<rparr>"

text \<open>
  The alerts whose markers the marker-sync effect places: all of them up to the first
  one whose latitude the SDK refuses. \<open>with_markers\<close> is the state with the markers of
  a list of alerts added, and \<open>sync_state\<close> the state the marker-sync effect leaves.
\<close>

definition placed :: "alert list \<Rightarrow> alert list" where
  "placed as = takeWhile (\<lambda>a. valid_latitude (latitude a)) as"

definition with_markers :: "alert list \<Rightarrow> mapview \<Rightarrow> mapview" where
  "with_markers as s =
     s\<lparr>marker_store :=
         (\<lambda>h. if next_marker s \<le> h \<and> h < next_marker s + length as
              then Some (marker_for (map_option map_id (map_current s)) (as ! (h - next_marker s)))
              else marker_store s h),
       next_marker := next_marker s + length as,
       markers_current := markers_current s @ [next_marker s..<next_marker s + length as]\<rparr>"

definition sync_state :: "mapview \<Rightarrow> mapview" where
  "sync_state s = state_of (marker_sync_effect s)"

text \<open>
  Well-formed stores: handles from \<open>next_marker\<close> on are free, and every marker on a map
  is in \<open>markers.current\<close>.
\<close>

definition wf :: "mapview \<Rightarrow> bool" where
  "wf s \<longleftrightarrow>
     (\<forall>h. next_marker s \<le> h \<longrightarrow> marker_store s h = None) \<and>
     (\<forall>h. attached s h \<longrightarrow> h \<in> set (markers_current s)) \<and>
     (\<forall>h \<in> set (markers_current s). h < next_marker s)"

text \<open>
  A map that has not been removed; a map that is also initialised and has fired \<open>load\<close>;
  and the markers of \<open>markers.current\<close> being the ones of the alerts, in order.
\<close>

definition map_live :: "mapview \<Rightarrow> bool" where
  "map_live s = (case map_current s of None \<Rightarrow> False | Some m \<Rightarrow> \<not> map_removed m)"

definition map_ready :: "mapview \<Rightarrow> bool" where
  "map_ready s =
     (case map_current s of
        None \<Rightarrow> False
      | Some m \<Rightarrow> load_listener m \<and> load_fired m \<and> \<not> map_removed m)"

definition markers_match :: "mapview \<Rightarrow> bool" where
  "markers_match s \<longleftrightarrow>
     map (marker_store s) (markers_current s) =
     map (\<lambda>a. Some (marker_for (map_option map_id (map_current s)) a)) (alerts s)"

text \<open>
  The invariant of a Mapbox view. \<open>inv0\<close> holds between a state update and the run of
  the marker-sync effect, \<open>life_inv\<close> after each event. \<open>idle\<close> is a view without a live
  map, and \<open>same_core\<close> relates states that differ outside the fields of the invariant.
\<close>

definition inv0 :: "mapview \<Rightarrow> bool" where
  "inv0 s \<longleftrightarrow>
     wf s \<and> rendered s = markers_current s \<and>
     (isMapLoaded s \<longrightarrow> mounted s \<and> map_ready s) \<and>
     (\<not> isMapLoaded s \<longrightarrow> markers_current s = []) \<and>
     (init_cleanup s \<longleftrightarrow> map_live s) \<and>
     (init_cleanup s \<longrightarrow> mounted s)"

definition life_inv :: "mapview \<Rightarrow> bool" where
  "life_inv s \<longleftrightarrow> inv0 s \<and> (isMapLoaded s \<longrightarrow> markers_match s)"

definition idle :: "mapview \<Rightarrow> bool" where
  "idle s \<longleftrightarrow>
     wf s \<and> rendered s = [] \<and> markers_current s = [] \<and> \<not> isMapLoaded s \<and> \<not> map_live s"

definition same_core :: "mapview \<Rightarrow> mapview \<Rightarrow> bool" where
  "same_core t s \<longleftrightarrow>
     isMapLoaded t = isMapLoaded s \<and> map_current t = map_current s \<and>
     markers_current t = markers_current s \<and> marker_store t = marker_store s \<and>
     next_marker t = next_marker s \<and> init_cleanup t = init_cleanup s \<and> mounted t = mounted s"

text \<open>The fetch of the token has failed: the call threw, or it returned an error.\<close>

definition failed :: "invoke_result \<Rightarrow> bool" where
  "failed r = (case r of Rejected e \<Rightarrow> True | Resolved resp \<Rightarrow> resp_error resp \<noteq> None)"

text \<open>Sample inputs.\<close>

definition fire_alert :: alert where
  "fire_alert =
     \<lparr>alert_id = ''a1'', sosId = ''S1'', type = ''FIRE'', latitude = 28.5, longitude = 77.1,
      status = ''PENDING''\<rparr>"

definition polar_alert :: alert where
  "polar_alert =
     \<lparr>alert_id = ''a3'', sosId = ''S3'', type = ''MEDICAL'', latitude = 91, longitude = 77.1,
      status = ''ASSIGNED''\<rparr>"

definition flood_alert :: alert where
  "flood_alert =
     \<lparr>alert_id = ''a2'', sosId = ''S2'', type = ''FLOOD'', latitude = 19.07, longitude = 72.87,
      status = ''ESCALATED''\<rparr>"

definition good_token :: invoke_result where
  "good_token = Resolved \<lparr>resp_data = Some \<lparr>token = Some ''pk.test''\<rparr>, resp_error = None\<rparr>"

definition empty_token :: invoke_result where
  "empty_token = Resolved \<lparr>resp_data = Some \<lparr>token = Some []\<rparr>, resp_error = None\<rparr>"

text \<open>
  While the fetch is pending the token is empty and the error flag is off.
\<close>

definition fetch_inv :: "mapview \<Rightarrow> bool" where
  "fetch_inv s \<longleftrightarrow> (fetch_pending s \<longrightarrow> mapboxToken s = [] \<and> \<not> tokenError s)"

text \<open>
  A loaded view with one marker on the map whose parent has just passed two alerts.
\<close>

definition loaded_view :: mapview where
  "loaded_view =
     (run_fetched [fire_alert] [FetchSettled good_token, MapLoad])\<lparr>alerts := [flood_alert, fire_alert]\<rparr>"

section \<open>The effects in closed form\<close>

text \<open>
  The loops of the effects, and the marker-sync effect behind its guard, as one update
  of the state.
\<close>

lemma fold_marker_remove:
  "fold marker_remove hs s =
     s\<lparr>marker_store := (\<lambda>h. if h \<in> set hs
                           then map_option (\<lambda>m. m\<lparr>on_map := None\<rparr>) (marker_store s h)
                           else marker_store s h)\<rparr>"
proof (induction hs arbitrary: s)
  case Nil
  show ?case by simp
next
  case (Cons x xs)
  have "fold marker_remove (x # xs) s = fold marker_remove xs (marker_remove x s)"
    by simp
  also have "\<dots> = (marker_remove x s)\<lparr>marker_store :=
      (\<lambda>h. if h \<in> set xs
           then map_option (\<lambda>m. m\<lparr>on_map := None\<rparr>) (marker_store (marker_remove x s) h)
           else marker_store (marker_remove x s) h)\<rparr>"
    by (rule Cons.IH)
  also have "\<dots> = s\<lparr>marker_store :=
      (\<lambda>h. if h \<in> set (x # xs)
           then map_option (\<lambda>m. m\<lparr>on_map := None\<rparr>) (marker_store s h)
           else marker_store s h)\<rparr>"
    by (rule mapview.equality)
       (simp_all add: marker_remove_def fun_eq_iff option.map_comp comp_def)
  finally show ?case .
qed

lemma clear_markers_eq:
  "clear_markers s =
     s\<lparr>marker_store := (\<lambda>h. if h \<in> set (markers_current s)
                           then map_option (\<lambda>m. m\<lparr>on_map := None\<rparr>) (marker_store s h)
                           else marker_store s h),
       markers_current := []\<rparr>"
  by (simp add: clear_markers_def fold_marker_remove)

lemma add_marker_eq:
  "valid_latitude (latitude a) \<Longrightarrow>
   add_marker a s =
     Inr (s\<lparr>marker_store := (marker_store s)
            (next_marker s \<mapsto> marker_for (map_option map_id (map_current s)) a),
          next_marker := Suc (next_marker s),
          markers_current := markers_current s @ [next_marker s]\<rparr>)"
  by (simp add: add_marker_def marker_for_def Let_def)

lemma add_marker_throws:
  "\<not> valid_latitude (latitude a) \<Longrightarrow> add_marker a s = Inl (InvalidLatitude (latitude a))"
  by (simp add: add_marker_def Let_def)

lemma with_markers_Nil: "with_markers [] s = s"
  by (rule mapview.equality) (auto simp add: with_markers_def fun_eq_iff)

lemma with_markers_Cons:
  "with_markers as
     (s\<lparr>marker_store := (marker_store s)
          (next_marker s \<mapsto> marker_for (map_option map_id (map_current s)) a),
        next_marker := Suc (next_marker s),
        markers_current := markers_current s @ [next_marker s]\<rparr>) =
   with_markers (a # as) s"
proof -
  have upt: "[next_marker s..<Suc (next_marker s + length as)] =
             next_marker s # [Suc (next_marker s)..<Suc (next_marker s + length as)]"
    by (rule upt_conv_Cons) simp
  show ?thesis
    by (rule mapview.equality)
       (auto simp add: with_markers_def upt fun_eq_iff nth_Cons' Suc_diff_le simp del: upt_Suc)
qed

lemma state_of_add_markers: "state_of (add_markers as s) = with_markers (placed as) s"
proof (induction as arbitrary: s)
  case Nil
  show ?case by (simp add: placed_def with_markers_Nil)
next
  case (Cons a as)
  show ?case
  proof (cases "valid_latitude (latitude a)")
    case True
    then show ?thesis
      using with_markers_Cons[of "placed as" s a]
      by (simp add: add_marker_eq Cons.IH placed_def)
  next
    case False
    then show ?thesis
      by (simp add: add_marker_throws placed_def with_markers_Nil)
  qed
qed

lemma threw_add_markers: "threw (add_markers as s) \<longleftrightarrow> placed as \<noteq> as"
proof (induction as arbitrary: s)
  case Nil
  show ?case by (simp add: placed_def)
next
  case (Cons a as)
  show ?case
  proof (cases "valid_latitude (latitude a)")
    case True
    then show ?thesis
      using Cons.IH by (simp add: add_marker_eq placed_def)
  next
    case False
    then show ?thesis
      by (simp add: add_marker_throws placed_def)
  qed
qed

lemma placed_all: "placed as = as \<longleftrightarrow> (\<forall>a \<in> set as. valid_latitude (latitude a))"
  by (simp add: placed_def takeWhile_eq_all_conv)

lemma fold_bounds_extend:
  "fold (\<lambda>a b. bounds_extend b (f a)) as acc = acc @ map f as"
  by (induction as arbitrary: acc) (simp_all add: bounds_extend_def)

lemma marker_sync_guard:
  "map_current s = None \<or> \<not> isMapLoaded s \<Longrightarrow> marker_sync_effect s = Returned s"
  by (simp add: marker_sync_effect_def)

lemma sync_state_guard:
  "map_current s = None \<or> \<not> isMapLoaded s \<Longrightarrow> sync_state s = s"
  by (simp add: sync_state_def marker_sync_guard)

lemma marker_sync_loaded:
  assumes "map_current s = Some m" and "isMapLoaded s"
  shows "sync_state s =
     (with_markers (placed (alerts s)) (clear_markers s))
       \<lparr>map_current :=
          Some (if placed (alerts s) = alerts s \<and> alerts s \<noteq> []
                then m\<lparr>camera := Fitted (map (\<lambda>a. (longitude a, latitude a)) (alerts s)) 50\<rparr>
                else m)\<rparr>"
    and "threw (marker_sync_effect s) \<longleftrightarrow> placed (alerts s) \<noteq> alerts s"
proof -
  let ?r = "add_markers (alerts s) (clear_markers s)"
  let ?w = "with_markers (placed (alerts s)) (clear_markers s)"
  have st: "state_of ?r = ?w"
    by (rule state_of_add_markers)
  have th: "threw ?r \<longleftrightarrow> placed (alerts s) \<noteq> alerts s"
    by (rule threw_add_markers)
  have mc: "map_current (with_markers p (clear_markers s)) = Some m" for p
    using assms(1) by (simp add: with_markers_def clear_markers_eq)
  have same: "(with_markers p (clear_markers s))\<lparr>map_current := Some m\<rparr> =
      with_markers p (clear_markers s)" for p
    by (rule mapview.equality) (simp_all add: mc)
  show "sync_state s =
     ?w\<lparr>map_current :=
          Some (if placed (alerts s) = alerts s \<and> alerts s \<noteq> []
                then m\<lparr>camera := Fitted (map (\<lambda>a. (longitude a, latitude a)) (alerts s)) 50\<rparr>
                else m)\<rparr>"
  proof (cases ?r)
    case (Returned t)
    with st th have t: "t = ?w" and p: "placed (alerts s) = alerts s" by simp_all
    show ?thesis
      using assms Returned mc same
      by (simp add: sync_state_def marker_sync_effect_def Let_def t p fold_bounds_extend
          fitBounds_def)
  next
    case (Threw e t)
    with st th have t: "t = ?w" and p: "placed (alerts s) \<noteq> alerts s" by simp_all
    show ?thesis
      using assms Threw same
      by (simp add: sync_state_def marker_sync_effect_def Let_def t p)
  qed
  show "threw (marker_sync_effect s) \<longleftrightarrow> placed (alerts s) \<noteq> alerts s"
    using assms th
    by (cases ?r) (simp_all add: marker_sync_effect_def Let_def)
qed

lemma threw_guard:
  "map_current s = None \<or> \<not> isMapLoaded s \<Longrightarrow> \<not> threw (marker_sync_effect s)"
  by (simp add: marker_sync_guard)

lemma settle_eq:
  "settle r = (if threw r then unmount (state_of r) else state_of r)"
  by (cases r) simp_all

section \<open>The marker-sync effect and the invariant\<close>

text \<open>
  What the marker-sync effect leaves in the store, and that it establishes the invariant.
\<close>

lemma attached_clear [simp]: "wf s \<Longrightarrow> attached (clear_markers s) h = False"
  by (auto simp add: clear_markers_eq attached_def wf_def split: option.splits)

lemma wf_clear:
  assumes "wf s"
  shows "wf (clear_markers s)"
proof -
  have "\<forall>h. next_marker (clear_markers s) \<le> h \<longrightarrow> marker_store (clear_markers s) h = None"
    using assms by (simp add: clear_markers_eq wf_def)
  moreover have "\<forall>h. \<not> attached (clear_markers s) h"
    using assms by simp
  moreover have "\<forall>h \<in> set (markers_current (clear_markers s)). h < next_marker (clear_markers s)"
    by (simp add: clear_markers_eq)
  ultimately show ?thesis
    unfolding wf_def by blast
qed

lemma rendered_clear: "wf s \<Longrightarrow> rendered (clear_markers s) = []"
  by (simp add: rendered_def)

lemma sync_store:
  assumes "map_current s = Some m" "isMapLoaded s"
  shows "marker_store (sync_state s) h =
     (if next_marker s \<le> h \<and> h < next_marker s + length (placed (alerts s))
      then Some (marker_for (Some (map_id m)) (placed (alerts s) ! (h - next_marker s)))
      else if h \<in> set (markers_current s)
      then map_option (\<lambda>m. m\<lparr>on_map := None\<rparr>) (marker_store s h)
      else marker_store s h)"
  using assms(1)
  by (simp add: marker_sync_loaded(1)[OF assms] with_markers_def clear_markers_eq)

lemma sync_next:
  assumes "map_current s = Some m" "isMapLoaded s"
  shows "next_marker (sync_state s) = next_marker s + length (placed (alerts s))"
  by (simp add: marker_sync_loaded(1)[OF assms] with_markers_def clear_markers_eq)

lemma sync_markers:
  assumes "map_current s = Some m" "isMapLoaded s"
  shows "markers_current (sync_state s) =
         [next_marker s..<next_marker s + length (placed (alerts s))]"
  by (simp add: marker_sync_loaded(1)[OF assms] with_markers_def clear_markers_eq)

lemma sync_map:
  assumes "map_current s = Some m" "isMapLoaded s"
  shows "map_current (sync_state s) =
         Some (if placed (alerts s) = alerts s \<and> alerts s \<noteq> []
               then m\<lparr>camera := Fitted (map (\<lambda>a. (longitude a, latitude a)) (alerts s)) 50\<rparr>
               else m)"
  by (simp add: marker_sync_loaded(1)[OF assms])

lemma sync_frame:
  "alerts (sync_state s) = alerts s"
  "mapboxToken (sync_state s) = mapboxToken s"
  "isMapLoaded (sync_state s) = isMapLoaded s"
  "tokenError (sync_state s) = tokenError s"
  "mapContainer (sync_state s) = mapContainer s"
  "accessToken (sync_state s) = accessToken s"
  "next_map (sync_state s) = next_map s"
  "console (sync_state s) = console s"
  "invoked (sync_state s) = invoked s"
  "fetch_pending (sync_state s) = fetch_pending s"
  "init_cleanup (sync_state s) = init_cleanup s"
  "mounted (sync_state s) = mounted s"
proof -
  have "alerts (sync_state s) = alerts s \<and> mapboxToken (sync_state s) = mapboxToken s \<and>
    isMapLoaded (sync_state s) = isMapLoaded s \<and> tokenError (sync_state s) = tokenError s \<and>
    mapContainer (sync_state s) = mapContainer s \<and> accessToken (sync_state s) = accessToken s \<and>
    next_map (sync_state s) = next_map s \<and> console (sync_state s) = console s \<and>
    invoked (sync_state s) = invoked s \<and> fetch_pending (sync_state s) = fetch_pending s \<and>
    init_cleanup (sync_state s) = init_cleanup s \<and> mounted (sync_state s) = mounted s"
  proof (cases "map_current s = None \<or> \<not> isMapLoaded s")
    case True
    then show ?thesis by (simp add: sync_state_guard)
  next
    case False
    then obtain m where "map_current s = Some m" "isMapLoaded s" by auto
    then show ?thesis
      by (simp add: marker_sync_loaded(1) with_markers_def clear_markers_eq)
  qed
  then show "alerts (sync_state s) = alerts s"
    "mapboxToken (sync_state s) = mapboxToken s"
    "isMapLoaded (sync_state s) = isMapLoaded s"
    "tokenError (sync_state s) = tokenError s"
    "mapContainer (sync_state s) = mapContainer s"
    "accessToken (sync_state s) = accessToken s"
    "next_map (sync_state s) = next_map s"
    "console (sync_state s) = console s"
    "invoked (sync_state s) = invoked s"
    "fetch_pending (sync_state s) = fetch_pending s"
    "init_cleanup (sync_state s) = init_cleanup s"
    "mounted (sync_state s) = mounted s"
    by simp_all
qed

lemma attached_sync:
  assumes "wf s" "map_current s = Some m" "isMapLoaded s"
  shows "attached (sync_state s) h \<longleftrightarrow>
         next_marker s \<le> h \<and> h < next_marker s + length (placed (alerts s))"
proof (cases "next_marker s \<le> h \<and> h < next_marker s + length (placed (alerts s))")
  case True
  then show ?thesis
    by (simp add: attached_def sync_store[OF assms(2,3)] marker_for_def)
next
  case False
  have "\<not> attached (sync_state s) h"
  proof (cases "h \<in> set (markers_current s)")
    case True
    with False show ?thesis
      by (auto simp add: attached_def sync_store[OF assms(2,3)] split: option.splits)
  next
    case out: False
    with assms(1) have "\<not> attached s h" by (auto simp add: wf_def)
    with False out show ?thesis
      by (auto simp add: attached_def sync_store[OF assms(2,3)])
  qed
  with False show ?thesis by simp
qed

lemma rendered_sync:
  assumes "wf s" "map_current s = Some m" "isMapLoaded s"
  shows "rendered (sync_state s) = [next_marker s..<next_marker s + length (placed (alerts s))]"
proof -
  let ?n = "next_marker s" and ?k = "length (placed (alerts s))"
  let ?P = "\<lambda>h. ?n \<le> h \<and> h < ?n + ?k"
  have att: "attached (sync_state s) = ?P"
    by (rule ext) (rule attached_sync[OF assms])
  have split: "[0..<?n + ?k] = [0..<?n] @ [?n..<?n + ?k]"
    by (rule upt_add_eq_append) simp
  have a: "filter ?P [0..<?n] = []"
    by (simp add: filter_empty_conv)
  have b: "filter ?P [?n..<?n + ?k] = [?n..<?n + ?k]"
    by (simp add: filter_id_conv)
  show ?thesis
    unfolding rendered_def sync_next[OF assms(2,3)] att split filter_append a b by simp
qed

lemma wf_sync:
  assumes "wf s" "map_current s = Some m" "isMapLoaded s"
  shows "wf (sync_state s)"
proof -
  have "\<forall>h. next_marker (sync_state s) \<le> h \<longrightarrow> marker_store (sync_state s) h = None"
    using assms(1) by (simp add: sync_next[OF assms(2,3)] sync_store[OF assms(2,3)] wf_def)
  moreover have "\<forall>h. attached (sync_state s) h \<longrightarrow> h \<in> set (markers_current (sync_state s))"
    by (simp add: attached_sync[OF assms] sync_markers[OF assms(2,3)])
  moreover have "\<forall>h \<in> set (markers_current (sync_state s)). h < next_marker (sync_state s)"
    by (simp add: sync_next[OF assms(2,3)] sync_markers[OF assms(2,3)])
  ultimately show ?thesis
    unfolding wf_def by blast
qed

lemma match_sync:
  assumes "map_current s = Some m" "isMapLoaded s"
  shows "map (marker_store (sync_state s)) (markers_current (sync_state s)) =
         map (\<lambda>a. Some (marker_for (Some (map_id m)) a)) (placed (alerts s))"
    and "placed (alerts s) = alerts s \<Longrightarrow> markers_match (sync_state s)"
proof -
  let ?s = "sync_state s"
  let ?n = "next_marker s" and ?k = "length (placed (alerts s))"
  have st: "\<And>i. i < ?k \<Longrightarrow>
      marker_store ?s (?n + i) = Some (marker_for (Some (map_id m)) (placed (alerts s) ! i))"
    by (simp add: sync_store[OF assms])
  have mid: "map_option map_id (map_current ?s) = Some (map_id m)"
    by (simp add: sync_map[OF assms])
  have "map (marker_store ?s) [?n..<?n + ?k] =
        map (\<lambda>a. Some (marker_for (Some (map_id m)) a)) (placed (alerts s))"
    by (rule nth_equalityI) (simp_all add: st)
  then show e: "map (marker_store ?s) (markers_current ?s) =
         map (\<lambda>a. Some (marker_for (Some (map_id m)) a)) (placed (alerts s))"
    unfolding sync_markers[OF assms] .
  show "markers_match ?s" if "placed (alerts s) = alerts s"
    using e that unfolding markers_match_def mid sync_frame(1) by simp
qed

lemma inv0_sync:
  assumes "inv0 s"
  shows "inv0 (sync_state s)"
proof (cases "isMapLoaded s")
  case False
  then show ?thesis using assms by (simp add: sync_state_guard)
next
  case True
  with assms obtain m where m: "map_current s = Some m"
    by (auto simp add: inv0_def map_ready_def split: option.splits)
  have "wf s" using assms by (simp add: inv0_def)
  note w = wf_sync[OF this m True] and r = rendered_sync[OF \<open>wf s\<close> m True]
  have fields:
    "map_ready (sync_state s) = map_ready s"
    "map_live (sync_state s) = map_live s"
    by (simp_all add: sync_map[OF m True] m map_ready_def map_live_def)
  show ?thesis
    unfolding inv0_def[of "sync_state s"]
    using assms True w r
    by (simp add: fields sync_frame sync_markers[OF m True] inv0_def)
qed

lemma inv_sync:
  assumes "inv0 s" "\<not> threw (marker_sync_effect s)"
  shows "life_inv (sync_state s)"
proof (cases "isMapLoaded s")
  case False
  then show ?thesis using assms by (simp add: sync_state_guard life_inv_def)
next
  case True
  with assms obtain m where m: "map_current s = Some m"
    by (auto simp add: inv0_def map_ready_def split: option.splits)
  from assms(2) have "placed (alerts s) = alerts s"
    by (simp add: marker_sync_loaded(2)[OF m True])
  then have "markers_match (sync_state s)"
    by (rule match_sync(2)[OF m True])
  with inv0_sync[OF assms(1)] show ?thesis
    by (simp add: life_inv_def)
qed

section \<open>The invariant through the life of a view\<close>

text \<open>
  Every state a view reaches satisfies the invariant.
\<close>

lemma same_core_wf: "same_core t s \<Longrightarrow> wf t = wf s"
  by (simp add: same_core_def wf_def attached_def)

lemma same_core_rendered: "same_core t s \<Longrightarrow> rendered t = rendered s"
  by (simp add: same_core_def rendered_def attached_def[abs_def])

lemma same_core_inv0: "same_core t s \<Longrightarrow> inv0 s \<Longrightarrow> inv0 t"
  using same_core_wf[of t s] same_core_rendered[of t s]
  by (simp add: inv0_def) (simp add: same_core_def map_ready_def map_live_def)

lemma same_core_life_inv:
  "same_core t s \<Longrightarrow> alerts t = alerts s \<Longrightarrow> life_inv s \<Longrightarrow> life_inv t"
  using same_core_inv0[of t s]
  by (simp add: life_inv_def) (simp add: same_core_def markers_match_def)

lemma same_core_alerts [simp]:
  "alerts (rerender r s) = alerts s"
  "alerts (fetchMapboxToken res s) = alerts s"
  "alerts (onChange v s) = alerts s"
  "alerts (handleTokenSubmit s) = alerts s"
  "alerts (invoke_token s) = alerts s"
  by (simp_all add: rerender_def fetchMapboxToken_def catch_fetch_def
      onChange_def handleTokenSubmit_def invoke_token_def
      split: invoke_result.splits option.splits)

lemma same_core_simps [simp]:
  "same_core (rerender r s) s"
  "same_core (fetchMapboxToken res s) s"
  "same_core (onChange v s) s"
  "same_core (handleTokenSubmit s) s"
  "same_core (invoke_token s) s"
  "same_core (s\<lparr>fetch_pending := b\<rparr>) s"
  "same_core (s\<lparr>fetch_pending := b, console := c\<rparr>) s"
  "same_core (s\<lparr>alerts := as\<rparr>) s"
  "same_core s s"
  by (simp_all add: same_core_def rerender_def fetchMapboxToken_def catch_fetch_def
      onChange_def handleTokenSubmit_def invoke_token_def
      split: invoke_result.splits option.splits)

lemma same_core_trans: "same_core u t \<Longrightarrow> same_core t s \<Longrightarrow> same_core u s"
  by (simp add: same_core_def)

lemma map_init_cleanup_eq:
  "map_init_cleanup s =
     (clear_markers s)\<lparr>map_current := map_option (\<lambda>m. m\<lparr>map_removed := True\<rparr>) (map_current s),
                       isMapLoaded := False\<rparr>"
  by (simp add: map_init_cleanup_def Let_def clear_markers_eq)

lemma idle_cleanup:
  assumes "wf s"
  shows "idle (map_init_cleanup s)"
proof -
  let ?c = "clear_markers s" and ?t = "map_init_cleanup s"
  have st: "marker_store ?t = marker_store ?c" "next_marker ?t = next_marker ?c"
    "markers_current ?t = markers_current ?c"
    by (simp_all add: map_init_cleanup_eq)
  have "wf ?t = wf ?c"
    by (simp add: wf_def attached_def st)
  moreover have "rendered ?t = rendered ?c"
    by (simp add: rendered_def attached_def[abs_def] st)
  moreover have "markers_current ?t = []" "\<not> isMapLoaded ?t" "\<not> map_live ?t"
    by (simp_all add: map_init_cleanup_eq clear_markers_eq map_live_def split: option.splits)
  ultimately show ?thesis
    using wf_clear[OF assms] rendered_clear[OF assms] by (simp add: idle_def)
qed

lemma cleanup_frame:
  "alerts (map_init_cleanup s) = alerts s"
  "mapboxToken (map_init_cleanup s) = mapboxToken s"
  "tokenError (map_init_cleanup s) = tokenError s"
  "mapContainer (map_init_cleanup s) = mapContainer s"
  "accessToken (map_init_cleanup s) = accessToken s"
  "next_marker (map_init_cleanup s) = next_marker s"
  "next_map (map_init_cleanup s) = next_map s"
  "console (map_init_cleanup s) = console s"
  "invoked (map_init_cleanup s) = invoked s"
  "fetch_pending (map_init_cleanup s) = fetch_pending s"
  "init_cleanup (map_init_cleanup s) = init_cleanup s"
  "mounted (map_init_cleanup s) = mounted s"
  by (simp_all add: map_init_cleanup_eq clear_markers_eq)

lemma init_frame:
  "alerts (map_init_effect s) = alerts s"
  "mapboxToken (map_init_effect s) = mapboxToken s"
  "isMapLoaded (map_init_effect s) = isMapLoaded s"
  "tokenError (map_init_effect s) = tokenError s"
  "mapContainer (map_init_effect s) = mapContainer s"
  "markers_current (map_init_effect s) = markers_current s"
  "marker_store (map_init_effect s) = marker_store s"
  "next_marker (map_init_effect s) = next_marker s"
  "console (map_init_effect s) = console s"
  "invoked (map_init_effect s) = invoked s"
  "fetch_pending (map_init_effect s) = fetch_pending s"
  "init_cleanup (map_init_effect s) = init_cleanup s"
  "mounted (map_init_effect s) = mounted s"
  by (simp_all add: map_init_effect_def Let_def)

lemma idle_init:
  assumes "idle s" "mounted s"
  defines "t \<equiv> (map_init_effect s)\<lparr>init_cleanup := map_init_returns_cleanup s\<rparr>"
  shows "life_inv t \<and> \<not> isMapLoaded t"
proof -
  have st: "marker_store t = marker_store s" "next_marker t = next_marker s"
    "markers_current t = markers_current s" "isMapLoaded t = isMapLoaded s" "mounted t = mounted s"
    by (simp_all add: t_def init_frame)
  have "wf t = wf s"
    by (simp add: wf_def attached_def st)
  moreover have "rendered t = rendered s"
    by (simp add: rendered_def attached_def[abs_def] st)
  moreover have "init_cleanup t = map_live t"
    using assms(1)
    by (simp add: t_def map_init_effect_def map_init_returns_cleanup_def Let_def map_live_def
        idle_def new_map_def addControl_def on_load_def)
  ultimately show ?thesis
    using assms(1,2) by (simp add: life_inv_def inv0_def idle_def st)
qed

lemma idle_of_inv:
  assumes "inv0 s" "\<not> init_cleanup s"
  shows "idle s"
proof -
  from assms have "\<not> map_live s" by (simp add: inv0_def)
  then have "\<not> map_ready s" by (simp add: map_live_def map_ready_def split: option.splits)
  with assms(1) have "\<not> isMapLoaded s" by (auto simp add: inv0_def)
  with assms(1) \<open>\<not> map_live s\<close> show ?thesis by (simp add: inv0_def idle_def)
qed

lemma run_map_init_eq:
  assumes "inv0 s"
  defines "s1 \<equiv> (if init_cleanup s then map_init_cleanup s else s)"
  shows "run_map_init s = (map_init_effect s1)\<lparr>init_cleanup := map_init_returns_cleanup s1\<rparr>"
    and "idle s1"
proof -
  show i: "idle s1"
    using assms(1) idle_cleanup[of s] idle_of_inv[of s] by (auto simp add: s1_def inv0_def)
  let ?t = "(map_init_effect s1)\<lparr>init_cleanup := map_init_returns_cleanup s1\<rparr>"
  have "\<not> isMapLoaded ?t" using i by (simp add: init_frame idle_def)
  then have "settle (marker_sync_effect ?t) = ?t" by (simp add: marker_sync_guard)
  then show "run_map_init s = ?t"
    by (simp add: run_map_init_def s1_def Let_def)
qed

lemma inv_run_map_init:
  assumes "inv0 s" "mounted s"
  shows "life_inv (run_map_init s)"
proof -
  let ?s1 = "if init_cleanup s then map_init_cleanup s else s"
  have "mounted ?s1" using assms(2) by (simp add: cleanup_frame)
  with run_map_init_eq[OF assms(1)] idle_init[of ?s1] show ?thesis by simp
qed

lemma inv_unmount:
  assumes "inv0 s"
  shows "life_inv (unmount s)" and "idle (unmount s)" and "\<not> mounted (unmount s)"
proof -
  let ?s1 = "if init_cleanup s then map_init_cleanup s else s"
  have i: "idle ?s1"
    using run_map_init_eq(2)[OF assms] .
  have u: "unmount s = ?s1\<lparr>mounted := False, mapContainer := False, init_cleanup := False\<rparr>"
    by (simp add: unmount_def)
  have st: "marker_store (unmount s) = marker_store ?s1" "next_marker (unmount s) = next_marker ?s1"
    "markers_current (unmount s) = markers_current ?s1"
    by (simp_all add: u)
  have w: "wf (unmount s) = wf ?s1"
    by (simp add: wf_def attached_def st)
  have r: "rendered (unmount s) = rendered ?s1"
    by (simp add: rendered_def attached_def[abs_def] st)
  have l: "map_live (unmount s) = map_live ?s1" "isMapLoaded (unmount s) = isMapLoaded ?s1"
    "\<not> init_cleanup (unmount s)"
    by (simp_all add: u map_live_def)
  show "idle (unmount s)" using i by (simp add: idle_def w r l st)
  show "\<not> mounted (unmount s)" by (simp add: u)
  show "life_inv (unmount s)" using i by (simp add: life_inv_def inv0_def idle_def w r l st)
qed

lemma inv_settle:
  assumes "inv0 s"
  shows "life_inv (settle (marker_sync_effect s))"
proof (cases "threw (marker_sync_effect s)")
  case True
  then show ?thesis
    using inv_unmount(1)[OF inv0_sync[OF assms]] by (simp add: settle_eq sync_state_def)
next
  case False
  then show ?thesis
    using inv_sync[OF assms] by (simp add: settle_eq sync_state_def)
qed

lemma life_inv0: "life_inv s \<Longrightarrow> inv0 s"
  by (simp add: life_inv_def)

lemma inv0_initial: "inv0 (initial as)"
  by (simp add: inv0_def initial_def wf_def attached_def rendered_def map_live_def)

lemma inv0_alerts: "inv0 s \<Longrightarrow> inv0 (s\<lparr>alerts := as\<rparr>)"
  by (rule same_core_inv0[of _ s]) simp_all

lemma inv0_fire_load:
  assumes "inv0 s" "mounted s" "load_enabled s"
  shows "inv0 (fire_load s)"
  using assms
  by (auto simp add: inv0_def fire_load_def load_callback_def load_enabled_def wf_def attached_def
      attached_def[abs_def] rendered_def map_live_def map_ready_def split: option.splits)

lemma life_inv_mount_fetched: "life_inv (mount_fetched as)"
proof -
  let ?s1 = "invoke_token (rerender render_fetched (initial as))"
  have c: "same_core ?s1 (initial as)"
    by (rule same_core_trans[of _ "rerender render_fetched (initial as)"]) simp_all
  then have "inv0 ?s1" using inv0_initial by (rule same_core_inv0)
  moreover have "\<not> init_cleanup ?s1" "mounted ?s1"
    using c by (simp_all add: same_core_def initial_def)
  ultimately have "idle ?s1" "mounted ?s1" by (simp_all add: idle_of_inv)
  from idle_init[OF this] show ?thesis
    by (simp add: mount_fetched_def Let_def marker_sync_guard)
qed

lemma life_inv_mount_typed: "life_inv (mount_typed as)"
proof -
  let ?s1 = "rerender render_typed (initial as)"
  have "inv0 ?s1" by (rule same_core_inv0[of _ "initial as"]) (simp_all add: inv0_initial)
  moreover have "\<not> init_cleanup ?s1" "mounted ?s1"
    by (simp_all add: rerender_def initial_def)
  ultimately have "idle ?s1" "mounted ?s1" by (simp_all add: idle_of_inv)
  from idle_init[OF this] show ?thesis
    by (simp add: mount_typed_def Let_def marker_sync_guard)
qed

lemma life_inv_step_fetched:
  assumes "life_inv s"
  shows "life_inv (step_fetched e s)"
proof (cases e)
  case (FetchSettled r)
  let ?s1 = "rerender render_fetched ((fetchMapboxToken r s)\<lparr>fetch_pending := False\<rparr>)"
  have c: "same_core ?s1 s" "alerts ?s1 = alerts s"
    by (simp_all add: same_core_def rerender_def fetchMapboxToken_def catch_fetch_def
        split: invoke_result.splits option.splits)
  have i: "life_inv ?s1" "inv0 ?s1" "mounted ?s1 = mounted s"
    using same_core_life_inv[OF c assms] c(1) by (simp_all add: life_inv0 same_core_def)
  have "life_inv (s\<lparr>fetch_pending := False, console := console (fetchMapboxToken r s)\<rparr>)"
    by (rule same_core_life_inv[OF _ _ assms]) simp_all
  with FetchSettled assms i inv_run_map_init[of ?s1] show ?thesis
    by (simp add: Let_def)
next
  case (TokenTyped v)
  with assms show ?thesis by simp
next
  case SubmitClicked
  with assms show ?thesis by simp
next
  case MapLoad
  show ?thesis
  proof (cases "mounted s \<and> load_enabled s")
    case True
    then have "inv0 (fire_load s)" using assms by (simp add: inv0_fire_load life_inv0)
    then have "inv0 (rerender render_fetched (fire_load s))"
      by (rule same_core_inv0[rotated]) simp
    then show ?thesis using MapLoad True by (simp add: inv_settle)
  next
    case False
    with MapLoad assms show ?thesis by auto
  qed
next
  case (AlertsChanged as)
  have "inv0 (rerender render_fetched (s\<lparr>alerts := as\<rparr>))"
    by (rule same_core_inv0[of _ "s\<lparr>alerts := as\<rparr>"]) (simp_all add: inv0_alerts life_inv0 assms)
  with AlertsChanged assms show ?thesis by (simp add: inv_settle)
next
  case Unmount
  with assms show ?thesis by (simp add: inv_unmount life_inv0)
qed

lemma life_inv_fold_fetched: "life_inv s \<Longrightarrow> life_inv (fold step_fetched evs s)"
  by (induction evs arbitrary: s) (simp_all add: life_inv_step_fetched)

lemma life_inv_run_fetched: "life_inv (run_fetched as evs)"
  by (simp add: run_fetched_def life_inv_fold_fetched life_inv_mount_fetched)

section \<open>Frames of the steps\<close>

text \<open>
  What each step leaves alone, and the invariant of the view with the typed token.
\<close>

lemma life_inv_step_typed:
  assumes "life_inv s"
  shows "life_inv (step_typed e s)"
proof (cases e)
  case (FetchSettled r)
  with assms show ?thesis by simp
next
  case (TokenTyped v)
  let ?s1 = "rerender render_typed (onChange v s)"
  have c: "same_core ?s1 s" "alerts ?s1 = alerts s"
    by (simp_all add: same_core_def rerender_def onChange_def)
  have i: "life_inv ?s1" "inv0 ?s1" "mounted ?s1 = mounted s"
    using same_core_life_inv[OF c assms] c(1) by (simp_all add: life_inv0 same_core_def)
  with TokenTyped assms inv_run_map_init[of ?s1] show ?thesis
    by (simp add: Let_def)
next
  case SubmitClicked
  have "life_inv (rerender render_typed (handleTokenSubmit s))"
    by (rule same_core_life_inv[OF _ _ assms])
       (simp_all add: same_core_def rerender_def handleTokenSubmit_def)
  with SubmitClicked assms show ?thesis by simp
next
  case MapLoad
  show ?thesis
  proof (cases "mounted s \<and> load_enabled s")
    case True
    then have "inv0 (fire_load s)" using assms by (simp add: inv0_fire_load life_inv0)
    then have "inv0 (rerender render_typed (fire_load s))"
      by (rule same_core_inv0[rotated]) simp
    then show ?thesis using MapLoad True by (simp add: inv_settle)
  next
    case False
    with MapLoad assms show ?thesis by auto
  qed
next
  case (AlertsChanged as)
  have "inv0 (rerender render_typed (s\<lparr>alerts := as\<rparr>))"
    by (rule same_core_inv0[of _ "s\<lparr>alerts := as\<rparr>"]) (simp_all add: inv0_alerts life_inv0 assms)
  with AlertsChanged assms show ?thesis by (simp add: inv_settle)
next
  case Unmount
  with assms show ?thesis by (simp add: inv_unmount life_inv0)
qed

lemma life_inv_fold_typed: "life_inv s \<Longrightarrow> life_inv (fold step_typed evs s)"
  by (induction evs arbitrary: s) (simp_all add: life_inv_step_typed)

lemma life_inv_run_typed: "life_inv (run_typed as evs)"
  by (simp add: run_typed_def life_inv_fold_typed life_inv_mount_typed)

lemma settle_frame:
  "alerts (settle (marker_sync_effect s)) = alerts s"
  "mapboxToken (settle (marker_sync_effect s)) = mapboxToken s"
  "tokenError (settle (marker_sync_effect s)) = tokenError s"
  "invoked (settle (marker_sync_effect s)) = invoked s"
  "fetch_pending (settle (marker_sync_effect s)) = fetch_pending s"
  using sync_frame[of s]
  by (simp_all add: settle_eq sync_state_def unmount_def cleanup_frame)

lemma settle_loaded: "isMapLoaded (settle (marker_sync_effect s)) \<Longrightarrow> isMapLoaded s"
  using sync_frame(3)[of s]
  by (simp add: settle_eq sync_state_def unmount_def map_init_cleanup_eq split: if_splits)

lemma run_map_init_plain:
  "run_map_init s =
     (map_init_effect (if init_cleanup s then map_init_cleanup s else s))
       \<lparr>init_cleanup := map_init_returns_cleanup (if init_cleanup s then map_init_cleanup s else s)\<rparr>"
  by (simp add: run_map_init_def Let_def init_frame map_init_cleanup_eq marker_sync_guard)

lemma run_map_init_frame:
  "alerts (run_map_init s) = alerts s"
  "mapboxToken (run_map_init s) = mapboxToken s"
  "tokenError (run_map_init s) = tokenError s"
  "console (run_map_init s) = console s"
  "invoked (run_map_init s) = invoked s"
  "fetch_pending (run_map_init s) = fetch_pending s"
  "mounted (run_map_init s) = mounted s"
  by (simp_all add: run_map_init_plain init_frame cleanup_frame)

lemma run_map_init_not_loaded: "\<not> isMapLoaded s \<Longrightarrow> \<not> isMapLoaded (run_map_init s)"
  by (simp add: run_map_init_plain init_frame map_init_cleanup_eq)

lemma fetch_token_frame:
  "invoked (fetchMapboxToken r s) = invoked s"
  "fetch_pending (fetchMapboxToken r s) = fetch_pending s"
  "isMapLoaded (fetchMapboxToken r s) = isMapLoaded s"
  "mounted (fetchMapboxToken r s) = mounted s"
  by (simp_all add: fetchMapboxToken_def catch_fetch_def split: invoke_result.splits option.splits)

lemma fetch_token_error_kept: "tokenError s \<Longrightarrow> tokenError (fetchMapboxToken r s)"
  by (simp add: fetchMapboxToken_def catch_fetch_def split: invoke_result.splits option.splits)

lemma unmount_frame:
  "alerts (unmount s) = alerts s"
  "mapboxToken (unmount s) = mapboxToken s"
  "tokenError (unmount s) = tokenError s"
  "invoked (unmount s) = invoked s"
  "fetch_pending (unmount s) = fetch_pending s"
  by (simp_all add: unmount_def cleanup_frame)

lemma unmount_loaded: "isMapLoaded (unmount s) \<Longrightarrow> isMapLoaded s"
  by (simp add: unmount_def map_init_cleanup_eq split: if_splits)

lemma fire_load_frame:
  "alerts (fire_load s) = alerts s"
  "mapboxToken (fire_load s) = mapboxToken s"
  "tokenError (fire_load s) = tokenError s"
  "invoked (fire_load s) = invoked s"
  "fetch_pending (fire_load s) = fetch_pending s"
  by (simp_all add: fire_load_def load_callback_def)

lemma rerender_frame:
  "mapboxToken (rerender r s) = mapboxToken s"
  "tokenError (rerender r s) = tokenError s"
  "invoked (rerender r s) = invoked s"
  "fetch_pending (rerender r s) = fetch_pending s"
  "isMapLoaded (rerender r s) = isMapLoaded s"
  "mounted (rerender r s) = mounted s"
  by (simp_all add: rerender_def)

lemmas frames = run_map_init_frame fetch_token_frame unmount_frame fire_load_frame
  rerender_frame settle_frame

lemma step_fetched_invoked: "invoked (step_fetched e s) = invoked s"
  by (cases e) (simp_all add: Let_def frames)

lemma fold_step_fetched_invoked: "invoked (fold step_fetched evs s) = invoked s"
  by (induction evs arbitrary: s) (simp_all add: step_fetched_invoked)

lemma step_fetched_error_kept: "tokenError s \<Longrightarrow> tokenError (step_fetched e s)"
  by (cases e) (simp_all add: Let_def frames fetch_token_error_kept)

lemma fold_step_fetched_error_kept: "tokenError s \<Longrightarrow> tokenError (fold step_fetched evs s)"
  by (induction evs arbitrary: s) (simp_all add: step_fetched_error_kept)

lemma failed_sets_error: "failed r \<Longrightarrow> tokenError (fetchMapboxToken r s)"
  by (auto simp add: failed_def fetchMapboxToken_def catch_fetch_def
      split: invoke_result.splits option.splits)

lemma failed_keeps_token: "failed r \<Longrightarrow> mapboxToken (fetchMapboxToken r s) = mapboxToken s"
  by (auto simp add: failed_def fetchMapboxToken_def catch_fetch_def
      split: invoke_result.splits option.splits)

lemma fetch_inv_step: "fetch_inv s \<Longrightarrow> fetch_inv (step_fetched e s)"
  by (cases e) (auto simp add: fetch_inv_def Let_def frames)

lemma fetch_inv_fold: "fetch_inv s \<Longrightarrow> fetch_inv (fold step_fetched evs s)"
  by (induction evs arbitrary: s) (simp_all add: fetch_inv_step)

lemma fetch_inv_mount: "fetch_inv (mount_fetched as)"
  by (simp add: fetch_inv_def mount_fetched_def Let_def frames init_frame invoke_token_def
      initial_def)

lemma fetch_inv_run: "fetch_inv (run_fetched as evs)"
  by (simp add: run_fetched_def fetch_inv_fold fetch_inv_mount)

lemma invoked_mount: "invoked (mount_fetched as) = [''get-mapbox-token'']"
  by (simp add: mount_fetched_def Let_def frames init_frame invoke_token_def initial_def)

lemma step_fetched_loads:
  "\<not> isMapLoaded s \<Longrightarrow> isMapLoaded (step_fetched e s) \<Longrightarrow> e = MapLoad \<and> load_enabled s"
  using run_map_init_not_loaded[of "rerender render_fetched ((fetchMapboxToken r s)\<lparr>fetch_pending := False\<rparr>)" for r]
    unmount_loaded[of s]
  by (cases e) (auto simp add: Let_def frames split: if_splits dest!: settle_loaded)

lemma step_typed_loads:
  "\<not> isMapLoaded s \<Longrightarrow> isMapLoaded (step_typed e s) \<Longrightarrow> e = MapLoad \<and> load_enabled s"
  using run_map_init_not_loaded[of "rerender render_typed (onChange v s)" for v]
    unmount_loaded[of s]
  by (cases e)
     (auto simp add: Let_def frames onChange_def handleTokenSubmit_def split: if_splits
        dest!: settle_loaded)

section \<open>The claims\<close>

text \<open>
  The claims about the views, each with the inputs that exercise its hypotheses.
\<close>

text \<open>The popup of a Mapbox marker contains the type and the SOS identifier.\<close>

lemma sublist_mid: "sublist x (p @ x @ q)"
  unfolding sublist_def by blast

lemma popup_has_type: "sublist (type a) (popup_html (marker_popup_for a))"
  unfolding marker_popup_for_def popup.simps by (rule sublist_mid)

lemma placed_shorter:
  assumes "placed as \<noteq> as"
  shows "length (placed as) < length as"
proof -
  let ?d = "dropWhile (\<lambda>a. valid_latitude (latitude a)) as"
  have e: "as = placed as @ ?d"
    by (simp add: placed_def)
  with assms have "?d \<noteq> []" by (metis append_Nil2)
  with e show ?thesis
    by (metis length_append length_greater_0_conv less_add_same_cancel1)
qed

lemma popup_has_sosId: "sublist (sosId a) (popup_html (marker_popup_for a))"
proof -
  have "\<exists>p q. popup_html (marker_popup_for a) = p @ sosId a @ q"
    unfolding marker_popup_for_def popup.simps
    by (metis append.assoc)
  then show ?thesis unfolding sublist_def by blast
qed

text \<open>
  Claim C1, as the code has it. In the Leaflet view, \<open>N\<close> alerts give \<open>N\<close> markers, each at
  the (latitude, longitude) of its alert and with a popup that has the type and the SOS
  identifier of the alert among its texts. In the Mapbox views the marker-sync effect does
  the same behind its guard and for latitudes the SDK takes: with \<open>map.current\<close> set, the
  loaded flag on and every latitude within [-90, 90], the effect returns, and the markers
  on the map afterwards are those of \<open>markers.current\<close>, one per alert, each at the
  [longitude, latitude] of its alert, on the current map, with a popup whose HTML contains
  the type and the SOS identifier. With a latitude outside that range the effect throws
  and has placed fewer markers than there are alerts. Without a map, or before it has
  loaded, the effect returns the state as it is. In every state either Mapbox view reaches
  with the loaded flag on, the markers on the map are those of the current alerts, one
  for each.
\<close>

theorem markers_per_alert:
  "length (leaflet_markers as) = length as \<and>
   (\<forall>i < length as.
      lf_position (leaflet_markers as ! i) = (latitude (as ! i), longitude (as ! i)) \<and>
      type (as ! i) \<in> set (texts (lf_popup (leaflet_markers as ! i))) \<and>
      sosId (as ! i) \<in> set (texts (lf_popup (leaflet_markers as ! i)))) \<and>
   (wf s \<and> map_current s = Some m \<and> isMapLoaded s \<and>
    (\<forall>a \<in> set (alerts s). valid_latitude (latitude a)) \<longrightarrow>
      \<not> threw (marker_sync_effect s) \<and>
      rendered (sync_state s) = markers_current (sync_state s) \<and>
      length (markers_current (sync_state s)) = length (alerts s) \<and>
      (\<forall>i < length (alerts s).
         \<exists>mk p. marker_store (sync_state s) (markers_current (sync_state s) ! i) = Some mk \<and>
           marker_element mk = marker_el (alerts s ! i) \<and>
           lngLat mk = (longitude (alerts s ! i), latitude (alerts s ! i)) \<and>
           on_map mk = Some (map_id m) \<and>
           marker_popup mk = Some p \<and>
           sublist (type (alerts s ! i)) (popup_html p) \<and>
           sublist (sosId (alerts s ! i)) (popup_html p))) \<and>
   (map_current s = Some m \<and> isMapLoaded s \<and>
    \<not> (\<forall>a \<in> set (alerts s). valid_latitude (latitude a)) \<longrightarrow>
      threw (marker_sync_effect s) \<and>
      length (markers_current (sync_state s)) < length (alerts s)) \<and>
   (map_current s = None \<or> \<not> isMapLoaded s \<longrightarrow> marker_sync_effect s = Returned s) \<and>
   (isMapLoaded (run_fetched bs evs) \<longrightarrow>
      rendered (run_fetched bs evs) = markers_current (run_fetched bs evs) \<and>
      length (markers_current (run_fetched bs evs)) = length (alerts (run_fetched bs evs)) \<and>
      markers_match (run_fetched bs evs)) \<and>
   (isMapLoaded (run_typed bs evs) \<longrightarrow>
      rendered (run_typed bs evs) = markers_current (run_typed bs evs) \<and>
      length (markers_current (run_typed bs evs)) = length (alerts (run_typed bs evs)) \<and>
      markers_match (run_typed bs evs))"
proof (intro conjI allI impI)
  show "length (leaflet_markers as) = length as"
    by (simp add: leaflet_markers_def)
next
  fix i assume "i < length as"
  then show "lf_position (leaflet_markers as ! i) = (latitude (as ! i), longitude (as ! i))"
    and "type (as ! i) \<in> set (texts (lf_popup (leaflet_markers as ! i)))"
    and "sosId (as ! i) \<in> set (texts (lf_popup (leaflet_markers as ! i)))"
    by (simp_all add: leaflet_markers_def leaflet_popup_def)
next
  assume a: "wf s \<and> map_current s = Some m \<and> isMapLoaded s \<and>
    (\<forall>a \<in> set (alerts s). valid_latitude (latitude a))"
  then have m: "map_current s = Some m" and l: "isMapLoaded s" and w: "wf s"
    and p: "placed (alerts s) = alerts s"
    by (simp_all add: placed_all)
  show "\<not> threw (marker_sync_effect s)"
    by (simp add: marker_sync_loaded(2)[OF m l] p)
  show "rendered (sync_state s) = markers_current (sync_state s)"
    by (simp add: rendered_sync[OF w m l] sync_markers[OF m l])
  show "length (markers_current (sync_state s)) = length (alerts s)"
    by (simp add: sync_markers[OF m l] p)
  fix i assume i: "i < length (alerts s)"
  let ?mk = "marker_for (Some (map_id m)) (alerts s ! i)"
  have "marker_store (sync_state s) (markers_current (sync_state s) ! i) = Some ?mk"
    using i by (simp add: sync_markers[OF m l] sync_store[OF m l] p)
  moreover have "lngLat ?mk = (longitude (alerts s ! i), latitude (alerts s ! i))"
    "on_map ?mk = Some (map_id m)" "marker_popup ?mk = Some (marker_popup_for (alerts s ! i))"
    "marker_element ?mk = marker_el (alerts s ! i)"
    by (simp_all add: marker_for_def)
  ultimately show "\<exists>mk p. marker_store (sync_state s) (markers_current (sync_state s) ! i) = Some mk \<and>
           marker_element mk = marker_el (alerts s ! i) \<and>
           lngLat mk = (longitude (alerts s ! i), latitude (alerts s ! i)) \<and>
           on_map mk = Some (map_id m) \<and>
           marker_popup mk = Some p \<and>
           sublist (type (alerts s ! i)) (popup_html p) \<and>
           sublist (sosId (alerts s ! i)) (popup_html p)"
    using popup_has_type popup_has_sosId by blast
next
  assume a: "map_current s = Some m \<and> isMapLoaded s \<and>
    \<not> (\<forall>a \<in> set (alerts s). valid_latitude (latitude a))"
  then have m: "map_current s = Some m" and l: "isMapLoaded s"
    and p: "placed (alerts s) \<noteq> alerts s"
    by (simp_all add: placed_all)
  show "threw (marker_sync_effect s)"
    by (simp add: marker_sync_loaded(2)[OF m l] p)
  show "length (markers_current (sync_state s)) < length (alerts s)"
    using placed_shorter[OF p] by (simp add: sync_markers[OF m l])
next
  assume "map_current s = None \<or> \<not> isMapLoaded s"
  then show "marker_sync_effect s = Returned s" by (rule marker_sync_guard)
next
  assume "isMapLoaded (run_fetched bs evs)"
  with life_inv_run_fetched[of bs evs]
  have r: "rendered (run_fetched bs evs) = markers_current (run_fetched bs evs)"
    and k: "markers_match (run_fetched bs evs)"
    by (simp_all add: life_inv_def inv0_def)
  from r show "rendered (run_fetched bs evs) = markers_current (run_fetched bs evs)" .
  from k show "markers_match (run_fetched bs evs)" .
  from k show "length (markers_current (run_fetched bs evs)) = length (alerts (run_fetched bs evs))"
    unfolding markers_match_def by (rule map_eq_imp_length_eq)
next
  assume "isMapLoaded (run_typed bs evs)"
  with life_inv_run_typed[of bs evs]
  have r: "rendered (run_typed bs evs) = markers_current (run_typed bs evs)"
    and k: "markers_match (run_typed bs evs)"
    by (simp_all add: life_inv_def inv0_def)
  from r show "rendered (run_typed bs evs) = markers_current (run_typed bs evs)" .
  from k show "markers_match (run_typed bs evs)" .
  from k show "length (markers_current (run_typed bs evs)) = length (alerts (run_typed bs evs))"
    unfolding markers_match_def by (rule map_eq_imp_length_eq)
qed

text \<open>Unfolding the views on concrete inputs.\<close>

lemmas view_defs = run_fetched_def run_typed_def mount_fetched_def mount_typed_def initial_def
  rerender_def render_fetched_def render_typed_def invoke_token_def map_init_effect_def
  map_init_returns_cleanup_def marker_sync_effect_def fetchMapboxToken_def catch_fetch_def
  run_map_init_def load_enabled_def fire_load_def load_callback_def new_map_def addControl_def
  on_load_def clear_markers_def marker_remove_def add_marker_def fitBounds_def bounds_extend_def
  map_init_cleanup_def unmount_def onChange_def handleTokenSubmit_def Let_def fire_alert_def
  flood_alert_def polar_alert_def good_token_def empty_token_def loaded_view_def
  valid_latitude_def sync_state_def

lemma loaded_view_fields:
  "isMapLoaded loaded_view" "markers_current loaded_view = [0]" "next_marker loaded_view = 1"
  "alerts loaded_view = [flood_alert, fire_alert]"
  "map_option map_id (map_current loaded_view) = Some 0"
  "marker_store loaded_view = (\<lambda>h. if h = 0 then Some (marker_for (Some 0) fire_alert) else None)"
  by (simp_all add: view_defs marker_for_def fun_eq_iff)

lemma wf_loaded_view: "wf (loaded_view\<lparr>alerts := as\<rparr>)"
  by (simp add: wf_def attached_def loaded_view_fields marker_for_def)

text \<open>
  A loaded view with two alerts: the effect leaves two markers, both on the map. With an
  alert at latitude 91 in the second place, it throws after the first marker.
\<close>

theorem markers_per_alert_witness:
  "wf loaded_view \<and> map_current loaded_view \<noteq> None \<and> isMapLoaded loaded_view \<and>
   alerts loaded_view = [flood_alert, fire_alert] \<and>
   valid_latitude (latitude flood_alert) \<and> valid_latitude (latitude fire_alert) \<and>
   length (alerts loaded_view) = 2 \<and>
   \<not> threw (marker_sync_effect loaded_view) \<and>
   rendered (sync_state loaded_view) = markers_current (sync_state loaded_view) \<and>
   length (markers_current (sync_state loaded_view)) = 2 \<and>
   \<not> valid_latitude (latitude polar_alert) \<and>
   threw (marker_sync_effect (loaded_view\<lparr>alerts := [flood_alert, polar_alert, fire_alert]\<rparr>)) \<and>
   length (markers_current
     (sync_state (loaded_view\<lparr>alerts := [flood_alert, polar_alert, fire_alert]\<rparr>))) < 3 \<and>
   (0::nat) < length [fire_alert] \<and>
   lf_position (leaflet_markers [fire_alert] ! 0) = (28.5, 77.1) \<and>
   ''FIRE'' \<in> set (texts (lf_popup (leaflet_markers [fire_alert] ! 0))) \<and>
   ''S1'' \<in> set (texts (lf_popup (leaflet_markers [fire_alert] ! 0))) \<and>
   map_current (mount_fetched [fire_alert]) = None \<and>
   marker_sync_effect (mount_fetched [fire_alert]) = Returned (mount_fetched [fire_alert]) \<and>
   isMapLoaded (run_fetched [flood_alert, fire_alert] [FetchSettled good_token, MapLoad]) \<and>
   length (rendered (run_fetched [flood_alert, fire_alert] [FetchSettled good_token, MapLoad])) = 2 \<and>
   isMapLoaded (run_typed [flood_alert, fire_alert] [TokenTyped ''pk.test'', MapLoad]) \<and>
   length (rendered (run_typed [flood_alert, fire_alert] [TokenTyped ''pk.test'', MapLoad])) = 2"
proof -
  let ?bad = "loaded_view\<lparr>alerts := [flood_alert, polar_alert, fire_alert]\<rparr>"
  obtain m where m: "map_current loaded_view = Some m"
    using loaded_view_fields(5) by (cases "map_current loaded_view") simp_all
  have w: "wf loaded_view"
    using wf_loaded_view[of "[flood_alert, fire_alert]"] by (simp add: loaded_view_fields(4)[symmetric])
  have v: "\<forall>a \<in> set (alerts loaded_view). valid_latitude (latitude a)"
    "\<not> (\<forall>a \<in> set [flood_alert, polar_alert, fire_alert]. valid_latitude (latitude a))"
    by (simp_all add: loaded_view_fields fire_alert_def flood_alert_def polar_alert_def
        valid_latitude_def)
  have n: "map_current (mount_fetched [fire_alert]) = None"
    "isMapLoaded (run_fetched [flood_alert, fire_alert] [FetchSettled good_token, MapLoad])"
    "alerts (run_fetched [flood_alert, fire_alert] [FetchSettled good_token, MapLoad]) =
       [flood_alert, fire_alert]"
    "isMapLoaded (run_typed [flood_alert, fire_alert] [TokenTyped ''pk.test'', MapLoad])"
    "alerts (run_typed [flood_alert, fire_alert] [TokenTyped ''pk.test'', MapLoad]) =
       [flood_alert, fire_alert]"
    by (simp_all add: view_defs)
  have b: "map_current ?bad = Some m" "isMapLoaded ?bad"
    "alerts ?bad = [flood_alert, polar_alert, fire_alert]"
    using m loaded_view_fields(1) by simp_all
  from markers_per_alert[of "[fire_alert]" loaded_view m "[flood_alert, fire_alert]"
      "[FetchSettled good_token, MapLoad]"]
    markers_per_alert[of "[fire_alert]" ?bad m "[flood_alert, fire_alert]"
      "[TokenTyped ''pk.test'', MapLoad]"]
    markers_per_alert[of "[fire_alert]" "mount_fetched [fire_alert]" m]
    w m n v b loaded_view_fields(1,4)
  show ?thesis by (simp add: fire_alert_def)
qed

text \<open>Right after the mount of the view that fetches its token there is no map yet: one alert,
  no marker.\<close>

theorem markers_per_alert_counterexample:
  "length (rendered (sync_state (mount_fetched [fire_alert]))) \<noteq>
   length (alerts (mount_fetched [fire_alert]))"
  by (simp add: view_defs rendered_def)

text \<open>
  Claim C2, as the code has it. The Leaflet view resets the camera to the centre
  (28.6139, 77.2090) and zoom 10 for an empty list, and fits the padded bounds of all
  alert positions otherwise. The marker-sync effect of the Mapbox views, behind its guard,
  fits the bounds extended with every alert's [longitude, latitude] (padding 50) for a list
  that is not empty and whose latitudes are all within [-90, 90]; it leaves the camera as
  it is for an empty list, and also when it throws at a latitude outside that range, which
  happens before the bounds are built. The default centre and zoom are those of the map's
  construction. Outside its guard the effect does nothing.
\<close>

theorem camera_after_sync:
  "FitBounds [] cam = SetView (28.6139, 77.2090) 10 \<and>
   (as \<noteq> [] \<longrightarrow> FitBounds as cam = FitGroup (map (\<lambda>a. (latitude a, longitude a)) as) 0.1) \<and>
   (map_current s = Some m \<and> isMapLoaded s \<longrightarrow>
      map_option camera (map_current (sync_state s)) =
        Some (if alerts s \<noteq> [] \<and> (\<forall>a \<in> set (alerts s). valid_latitude (latitude a))
              then Fitted (map (\<lambda>a. (longitude a, latitude a)) (alerts s)) 50
              else camera m) \<and>
      (threw (marker_sync_effect s) \<longleftrightarrow>
         \<not> (\<forall>a \<in> set (alerts s). valid_latitude (latitude a)))) \<and>
   (map_current s = None \<or> \<not> isMapLoaded s \<longrightarrow> marker_sync_effect s = Returned s) \<and>
   camera (new_map i tok) = CenterZoom (77.2090, 28.6139) 10"
proof (intro conjI impI)
  show "FitBounds [] cam = SetView (28.6139, 77.2090) 10"
    by (simp add: FitBounds_def)
  show "FitBounds as cam = FitGroup (map (\<lambda>a. (latitude a, longitude a)) as) 0.1" if "as \<noteq> []"
    using that by (simp add: FitBounds_def)
  show "map_option camera (map_current (sync_state s)) =
        Some (if alerts s \<noteq> [] \<and> (\<forall>a \<in> set (alerts s). valid_latitude (latitude a))
              then Fitted (map (\<lambda>a. (longitude a, latitude a)) (alerts s)) 50
              else camera m)"
    if "map_current s = Some m \<and> isMapLoaded s"
    using that by (simp add: sync_map placed_all)
  show "threw (marker_sync_effect s) \<longleftrightarrow>
         \<not> (\<forall>a \<in> set (alerts s). valid_latitude (latitude a))"
    if "map_current s = Some m \<and> isMapLoaded s"
    using that by (simp add: marker_sync_loaded(2) placed_all)
  show "marker_sync_effect s = Returned s" if "map_current s = None \<or> \<not> isMapLoaded s"
    using that by (rule marker_sync_guard)
  show "camera (new_map i tok) = CenterZoom (77.2090, 28.6139) 10"
    by (simp add: new_map_def)
qed

text \<open>
  Two alerts: both views fit the camera to the two positions. With an alert at latitude
  91 among them, the Mapbox effect throws and the camera is the one of the last fit.
\<close>

theorem camera_after_sync_witness:
  "[flood_alert, fire_alert] \<noteq> [] \<and> map_current loaded_view \<noteq> None \<and> isMapLoaded loaded_view \<and>
   FitBounds [flood_alert, fire_alert] (SetView (28.6139, 77.2090) 10) =
     FitGroup [(19.07, 72.87), (28.5, 77.1)] 0.1 \<and>
   map_option camera (map_current (sync_state loaded_view)) =
     Some (Fitted [(72.87, 19.07), (77.1, 28.5)] 50) \<and>
   \<not> threw (marker_sync_effect loaded_view) \<and>
   map_option camera (map_current loaded_view) = Some (Fitted [(77.1, 28.5)] 50) \<and>
   map_option camera
     (map_current (sync_state (loaded_view\<lparr>alerts := [flood_alert, polar_alert]\<rparr>))) =
     Some (Fitted [(77.1, 28.5)] 50) \<and>
   threw (marker_sync_effect (loaded_view\<lparr>alerts := [flood_alert, polar_alert]\<rparr>)) \<and>
   \<not> isMapLoaded (mount_typed [fire_alert]) \<and>
   marker_sync_effect (mount_typed [fire_alert]) = Returned (mount_typed [fire_alert])"
proof -
  let ?bad = "loaded_view\<lparr>alerts := [flood_alert, polar_alert]\<rparr>"
  obtain m where m: "map_current loaded_view = Some m"
    using loaded_view_fields(5) by (cases "map_current loaded_view") simp_all
  have c: "map_option camera (map_current loaded_view) = Some (Fitted [(77.1, 28.5)] 50)"
    by (simp add: view_defs)
  with m have cm: "camera m = Fitted [(77.1, 28.5)] 50" by simp
  have n: "\<not> isMapLoaded (mount_typed [fire_alert])"
    by (simp add: view_defs)
  have b: "map_current ?bad = Some m" "isMapLoaded ?bad" "alerts ?bad = [flood_alert, polar_alert]"
    using m loaded_view_fields(1) by simp_all
  from camera_after_sync[of "SetView (28.6139, 77.2090) 10" "[flood_alert, fire_alert]" loaded_view m]
    camera_after_sync[of "SetView (28.6139, 77.2090) 10" "[flood_alert, fire_alert]" ?bad m]
    camera_after_sync[of "SetView (28.6139, 77.2090) 10" "[flood_alert, fire_alert]"
      "mount_typed [fire_alert]" m]
    m n b c cm loaded_view_fields(1,4)
  show ?thesis
    by (simp add: fire_alert_def flood_alert_def polar_alert_def valid_latitude_def)
qed

text \<open>A loaded Mapbox view whose alerts become empty keeps the camera of the last fit.\<close>

theorem camera_after_sync_counterexample:
  "alerts (run_fetched [fire_alert] [FetchSettled good_token, MapLoad, AlertsChanged []]) = [] \<and>
   map_option camera
     (map_current (run_fetched [fire_alert] [FetchSettled good_token, MapLoad, AlertsChanged []])) =
     Some (Fitted [(77.1, 28.5)] 50) \<and>
   Fitted [(77.1, 28.5)] 50 \<noteq> CenterZoom (77.2090, 28.6139) 10"
  by (simp add: view_defs)

text \<open>
  Claim C3. With the map loaded, the marker-sync effect first takes every marker of
  \<open>markers.current\<close> off the map and empties the collection; after the effect, for every
  alert list, no handle of the old collection is in the new one or on the map, the markers
  on the map are those of the new collection, without duplicates, and they are the markers
  of the current alerts up to the first one whose latitude the SDK refuses: of all of
  them when every latitude is within [-90, 90]. So it is after every change of the
  alerts in a loaded view, whatever happened before, in both Mapbox views; when the new
  list has a latitude outside the range, the view is unmounted and no marker is left.
\<close>

theorem sync_replaces_markers:
  "(wf s \<and> map_current s = Some m \<and> isMapLoaded s \<longrightarrow>
      rendered (clear_markers s) = [] \<and> markers_current (clear_markers s) = [] \<and>
      set (markers_current (sync_state s)) \<inter> set (markers_current s) = {} \<and>
      (\<forall>h \<in> set (markers_current s). \<not> attached (sync_state s) h) \<and>
      rendered (sync_state s) = markers_current (sync_state s) \<and>
      distinct (markers_current (sync_state s)) \<and>
      map (marker_store (sync_state s)) (markers_current (sync_state s)) =
        map (\<lambda>a. Some (marker_for (Some (map_id m)) a)) (placed (alerts s)) \<and>
      ((\<forall>a \<in> set (alerts s). valid_latitude (latitude a)) \<longrightarrow>
         placed (alerts s) = alerts s \<and> markers_match (sync_state s))) \<and>
   (isMapLoaded (run_fetched as evs) \<longrightarrow>
      rendered (step_fetched (AlertsChanged bs) (run_fetched as evs)) =
        markers_current (step_fetched (AlertsChanged bs) (run_fetched as evs)) \<and>
      alerts (step_fetched (AlertsChanged bs) (run_fetched as evs)) = bs \<and>
      set (markers_current (step_fetched (AlertsChanged bs) (run_fetched as evs))) \<inter>
        set (markers_current (run_fetched as evs)) = {} \<and>
      ((\<forall>a \<in> set bs. valid_latitude (latitude a)) \<longrightarrow>
         mounted (step_fetched (AlertsChanged bs) (run_fetched as evs)) \<and>
         markers_match (step_fetched (AlertsChanged bs) (run_fetched as evs))) \<and>
      (\<not> (\<forall>a \<in> set bs. valid_latitude (latitude a)) \<longrightarrow>
         \<not> mounted (step_fetched (AlertsChanged bs) (run_fetched as evs)) \<and>
         markers_current (step_fetched (AlertsChanged bs) (run_fetched as evs)) = [])) \<and>
   (isMapLoaded (run_typed as evs) \<longrightarrow>
      rendered (step_typed (AlertsChanged bs) (run_typed as evs)) =
        markers_current (step_typed (AlertsChanged bs) (run_typed as evs)) \<and>
      alerts (step_typed (AlertsChanged bs) (run_typed as evs)) = bs \<and>
      set (markers_current (step_typed (AlertsChanged bs) (run_typed as evs))) \<inter>
        set (markers_current (run_typed as evs)) = {} \<and>
      ((\<forall>a \<in> set bs. valid_latitude (latitude a)) \<longrightarrow>
         mounted (step_typed (AlertsChanged bs) (run_typed as evs)) \<and>
         markers_match (step_typed (AlertsChanged bs) (run_typed as evs))) \<and>
      (\<not> (\<forall>a \<in> set bs. valid_latitude (latitude a)) \<longrightarrow>
         \<not> mounted (step_typed (AlertsChanged bs) (run_typed as evs)) \<and>
         markers_current (step_typed (AlertsChanged bs) (run_typed as evs)) = []))"
proof -
  have effect: "set (markers_current (sync_state t)) \<inter> set (markers_current t) = {}"
    "\<forall>h \<in> set (markers_current t). \<not> attached (sync_state t) h"
    "rendered (sync_state t) = markers_current (sync_state t)"
    "distinct (markers_current (sync_state t))"
    "map (marker_store (sync_state t)) (markers_current (sync_state t)) =
        map (\<lambda>a. Some (marker_for (Some (map_id k)) a)) (placed (alerts t))"
    "(\<forall>a \<in> set (alerts t). valid_latitude (latitude a)) \<longrightarrow>
         placed (alerts t) = alerts t \<and> markers_match (sync_state t)"
    if w: "wf t" and m: "map_current t = Some k" and l: "isMapLoaded t" for t k
  proof -
    have below: "\<forall>h \<in> set (markers_current t). h < next_marker t"
      using w by (simp add: wf_def)
    then show "set (markers_current (sync_state t)) \<inter> set (markers_current t) = {}"
      by (auto simp add: sync_markers[OF m l])
    show "\<forall>h \<in> set (markers_current t). \<not> attached (sync_state t) h"
      using below by (auto simp add: attached_sync[OF w m l])
    show "rendered (sync_state t) = markers_current (sync_state t)"
      by (simp add: rendered_sync[OF w m l] sync_markers[OF m l])
    show "distinct (markers_current (sync_state t))"
      by (simp add: sync_markers[OF m l])
    show "map (marker_store (sync_state t)) (markers_current (sync_state t)) =
        map (\<lambda>a. Some (marker_for (Some (map_id k)) a)) (placed (alerts t))"
      by (rule match_sync(1)[OF m l])
    show "(\<forall>a \<in> set (alerts t). valid_latitude (latitude a)) \<longrightarrow>
         placed (alerts t) = alerts t \<and> markers_match (sync_state t)"
      using match_sync(2)[OF m l] by (simp add: placed_all)
  qed
  have changed: "rendered (settle (marker_sync_effect (rerender r (t\<lparr>alerts := bs\<rparr>)))) =
        markers_current (settle (marker_sync_effect (rerender r (t\<lparr>alerts := bs\<rparr>)))) \<and>
      alerts (settle (marker_sync_effect (rerender r (t\<lparr>alerts := bs\<rparr>)))) = bs \<and>
      set (markers_current (settle (marker_sync_effect (rerender r (t\<lparr>alerts := bs\<rparr>))))) \<inter>
        set (markers_current t) = {} \<and>
      ((\<forall>a \<in> set bs. valid_latitude (latitude a)) \<longrightarrow>
         mounted (settle (marker_sync_effect (rerender r (t\<lparr>alerts := bs\<rparr>)))) \<and>
         markers_match (settle (marker_sync_effect (rerender r (t\<lparr>alerts := bs\<rparr>))))) \<and>
      (\<not> (\<forall>a \<in> set bs. valid_latitude (latitude a)) \<longrightarrow>
         \<not> mounted (settle (marker_sync_effect (rerender r (t\<lparr>alerts := bs\<rparr>)))) \<and>
         markers_current (settle (marker_sync_effect (rerender r (t\<lparr>alerts := bs\<rparr>)))) = [])"
    if i: "life_inv t" and l: "isMapLoaded t" for t r
  proof -
    let ?u = "rerender r (t\<lparr>alerts := bs\<rparr>)"
    from i l obtain k where k: "map_current t = Some k" and mt: "mounted t"
      by (auto simp add: life_inv_def inv0_def map_ready_def split: option.splits)
    have c: "same_core ?u t" by (simp add: same_core_def rerender_def)
    have i0: "inv0 ?u" using i c by (rule same_core_inv0[OF _ life_inv0, rotated])
    then have w: "wf ?u" by (simp add: inv0_def)
    have m: "map_current ?u = Some k" and l': "isMapLoaded ?u"
      and mc: "markers_current ?u = markers_current t" and a: "alerts ?u = bs"
      and mu: "mounted ?u"
      using k l mt by (simp_all add: rerender_def)
    note e = effect[OF w m l']
    show ?thesis
    proof (cases "\<forall>a \<in> set bs. valid_latitude (latitude a)")
      case True
      then have "\<not> threw (marker_sync_effect ?u)"
        by (simp add: marker_sync_loaded(2)[OF m l'] a placed_all)
      then have s: "settle (marker_sync_effect ?u) = sync_state ?u"
        by (simp add: settle_eq sync_state_def)
      from e True show ?thesis
        by (simp add: s mc a sync_frame mu)
    next
      case False
      then have "threw (marker_sync_effect ?u)"
        by (simp add: marker_sync_loaded(2)[OF m l'] a placed_all)
      then have s: "settle (marker_sync_effect ?u) = unmount (sync_state ?u)"
        by (simp add: settle_eq sync_state_def)
      from inv_unmount[OF inv0_sync[OF i0]] False show ?thesis
        by (simp add: s idle_def unmount_frame sync_frame a)
    qed
  qed
  have mf: "mounted (run_fetched as evs)" if "isMapLoaded (run_fetched as evs)"
    using that life_inv_run_fetched[of as evs] by (simp add: life_inv_def inv0_def)
  have mt: "mounted (run_typed as evs)" if "isMapLoaded (run_typed as evs)"
    using that life_inv_run_typed[of as evs] by (simp add: life_inv_def inv0_def)
  have first: "wf s \<and> map_current s = Some m \<and> isMapLoaded s \<longrightarrow>
      rendered (clear_markers s) = [] \<and> markers_current (clear_markers s) = [] \<and>
      set (markers_current (sync_state s)) \<inter> set (markers_current s) = {} \<and>
      (\<forall>h \<in> set (markers_current s). \<not> attached (sync_state s) h) \<and>
      rendered (sync_state s) = markers_current (sync_state s) \<and>
      distinct (markers_current (sync_state s)) \<and>
      map (marker_store (sync_state s)) (markers_current (sync_state s)) =
        map (\<lambda>a. Some (marker_for (Some (map_id m)) a)) (placed (alerts s)) \<and>
      ((\<forall>a \<in> set (alerts s). valid_latitude (latitude a)) \<longrightarrow>
         placed (alerts s) = alerts s \<and> markers_match (sync_state s))"
    using effect[of s m] rendered_clear[of s]
    by (simp add: clear_markers_eq)
  have second: "isMapLoaded (run_fetched as evs) \<longrightarrow>
      rendered (step_fetched (AlertsChanged bs) (run_fetched as evs)) =
        markers_current (step_fetched (AlertsChanged bs) (run_fetched as evs)) \<and>
      alerts (step_fetched (AlertsChanged bs) (run_fetched as evs)) = bs \<and>
      set (markers_current (step_fetched (AlertsChanged bs) (run_fetched as evs))) \<inter>
        set (markers_current (run_fetched as evs)) = {} \<and>
      ((\<forall>a \<in> set bs. valid_latitude (latitude a)) \<longrightarrow>
         mounted (step_fetched (AlertsChanged bs) (run_fetched as evs)) \<and>
         markers_match (step_fetched (AlertsChanged bs) (run_fetched as evs))) \<and>
      (\<not> (\<forall>a \<in> set bs. valid_latitude (latitude a)) \<longrightarrow>
         \<not> mounted (step_fetched (AlertsChanged bs) (run_fetched as evs)) \<and>
         markers_current (step_fetched (AlertsChanged bs) (run_fetched as evs)) = [])"
    using changed[OF life_inv_run_fetched, of as evs render_fetched] mf
    by simp
  have third: "isMapLoaded (run_typed as evs) \<longrightarrow>
      rendered (step_typed (AlertsChanged bs) (run_typed as evs)) =
        markers_current (step_typed (AlertsChanged bs) (run_typed as evs)) \<and>
      alerts (step_typed (AlertsChanged bs) (run_typed as evs)) = bs \<and>
      set (markers_current (step_typed (AlertsChanged bs) (run_typed as evs))) \<inter>
        set (markers_current (run_typed as evs)) = {} \<and>
      ((\<forall>a \<in> set bs. valid_latitude (latitude a)) \<longrightarrow>
         mounted (step_typed (AlertsChanged bs) (run_typed as evs)) \<and>
         markers_match (step_typed (AlertsChanged bs) (run_typed as evs))) \<and>
      (\<not> (\<forall>a \<in> set bs. valid_latitude (latitude a)) \<longrightarrow>
         \<not> mounted (step_typed (AlertsChanged bs) (run_typed as evs)) \<and>
         markers_current (step_typed (AlertsChanged bs) (run_typed as evs)) = [])"
    using changed[OF life_inv_run_typed, of as evs render_typed] mt
    by simp
  from first second third show ?thesis by (intro conjI)
qed

text \<open>
  The marker of the first alert list goes; the markers of the new list take fresh handles.
  A new list with latitude 91 in it unmounts the view.
\<close>

theorem sync_replaces_markers_witness:
  "wf loaded_view \<and> map_current loaded_view \<noteq> None \<and> isMapLoaded loaded_view \<and>
   alerts loaded_view = [flood_alert, fire_alert] \<and>
   valid_latitude (latitude flood_alert) \<and> valid_latitude (latitude fire_alert) \<and>
   markers_current loaded_view = [0] \<and>
   markers_current (sync_state loaded_view) = [1, 2] \<and>
   rendered (sync_state loaded_view) = [1, 2] \<and>
   \<not> attached (sync_state loaded_view) 0 \<and>
   markers_match (sync_state loaded_view) \<and>
   isMapLoaded (run_fetched [fire_alert] [FetchSettled good_token, MapLoad]) \<and>
   isMapLoaded (run_typed [fire_alert] [TokenTyped ''pk.test'', MapLoad]) \<and>
   markers_current (step_fetched (AlertsChanged [flood_alert])
     (run_fetched [fire_alert] [FetchSettled good_token, MapLoad])) = [1] \<and>
   markers_match (step_fetched (AlertsChanged [flood_alert])
     (run_fetched [fire_alert] [FetchSettled good_token, MapLoad])) \<and>
   rendered (step_typed (AlertsChanged [flood_alert])
     (run_typed [fire_alert] [TokenTyped ''pk.test'', MapLoad])) = [1] \<and>
   \<not> valid_latitude (latitude polar_alert) \<and>
   \<not> mounted (step_fetched (AlertsChanged [flood_alert, polar_alert])
     (run_fetched [fire_alert] [FetchSettled good_token, MapLoad])) \<and>
   rendered (step_typed (AlertsChanged [flood_alert, polar_alert])
     (run_typed [fire_alert] [TokenTyped ''pk.test'', MapLoad])) = []"
proof -
  obtain m where m: "map_current loaded_view = Some m"
    using loaded_view_fields(5) by (cases "map_current loaded_view") simp_all
  have w: "wf loaded_view"
    using wf_loaded_view[of "[flood_alert, fire_alert]"] by (simp add: loaded_view_fields(4)[symmetric])
  have l: "isMapLoaded (run_fetched [fire_alert] [FetchSettled good_token, MapLoad])"
    "isMapLoaded (run_typed [fire_alert] [TokenTyped ''pk.test'', MapLoad])"
    by (simp_all add: view_defs)
  have v: "markers_current (sync_state loaded_view) = [1, 2]"
    "markers_current (step_fetched (AlertsChanged [flood_alert])
       (run_fetched [fire_alert] [FetchSettled good_token, MapLoad])) = [1]"
    "markers_current (step_typed (AlertsChanged [flood_alert])
       (run_typed [fire_alert] [TokenTyped ''pk.test'', MapLoad])) = [1]"
    by (simp_all add: view_defs)
  have ok: "\<forall>a \<in> set (alerts loaded_view). valid_latitude (latitude a)"
    "\<forall>a \<in> set [flood_alert]. valid_latitude (latitude a)"
    "\<not> (\<forall>a \<in> set [flood_alert, polar_alert]. valid_latitude (latitude a))"
    by (simp_all add: loaded_view_fields fire_alert_def flood_alert_def polar_alert_def
        valid_latitude_def)
  note good = sync_replaces_markers[of loaded_view m "[fire_alert]"
      "[FetchSettled good_token, MapLoad]" "[flood_alert]"]
  note good_typed = sync_replaces_markers[of loaded_view m "[fire_alert]"
      "[TokenTyped ''pk.test'', MapLoad]" "[flood_alert]"]
  note bad = sync_replaces_markers[of loaded_view m "[fire_alert]"
      "[FetchSettled good_token, MapLoad]" "[flood_alert, polar_alert]"]
  note bad_typed = sync_replaces_markers[of loaded_view m "[fire_alert]"
      "[TokenTyped ''pk.test'', MapLoad]" "[flood_alert, polar_alert]"]
  from good[THEN conjunct1] w m ok(1) loaded_view_fields(1,2)
  have a: "rendered (sync_state loaded_view) = markers_current (sync_state loaded_view)"
    "\<not> attached (sync_state loaded_view) 0" "markers_match (sync_state loaded_view)"
    by simp_all
  from good[THEN conjunct2, THEN conjunct1] l(1) ok(2)
  have b: "markers_match (step_fetched (AlertsChanged [flood_alert])
     (run_fetched [fire_alert] [FetchSettled good_token, MapLoad]))"
    by blast
  from good_typed[THEN conjunct2, THEN conjunct2] l(2)
  have c: "rendered (step_typed (AlertsChanged [flood_alert])
     (run_typed [fire_alert] [TokenTyped ''pk.test'', MapLoad])) =
     markers_current (step_typed (AlertsChanged [flood_alert])
     (run_typed [fire_alert] [TokenTyped ''pk.test'', MapLoad]))"
    by blast
  from bad[THEN conjunct2, THEN conjunct1] l(1) ok(3)
  have d: "\<not> mounted (step_fetched (AlertsChanged [flood_alert, polar_alert])
     (run_fetched [fire_alert] [FetchSettled good_token, MapLoad]))"
    by blast
  from bad_typed[THEN conjunct2, THEN conjunct2] l(2) ok(3)
  have e: "rendered (step_typed (AlertsChanged [flood_alert, polar_alert])
     (run_typed [fire_alert] [TokenTyped ''pk.test'', MapLoad])) =
     markers_current (step_typed (AlertsChanged [flood_alert, polar_alert])
     (run_typed [fire_alert] [TokenTyped ''pk.test'', MapLoad]))"
    "markers_current (step_typed (AlertsChanged [flood_alert, polar_alert])
     (run_typed [fire_alert] [TokenTyped ''pk.test'', MapLoad])) = []"
    by blast+
  have ok': "valid_latitude (latitude flood_alert)" "valid_latitude (latitude fire_alert)"
    "\<not> valid_latitude (latitude polar_alert)"
    by (simp_all add: fire_alert_def flood_alert_def polar_alert_def valid_latitude_def)
  from w m l v ok' a b c d e loaded_view_fields(1,2,4)
  show ?thesis by (simp del: step_fetched.simps step_typed.simps)
qed

text \<open>
  Claim C4. When the fetch of the token fails (the call throws or returns an error), the
  error flag is set, the token is left as it was, and the view renders the error message,
  not the map area. It does so after every later event as well, and no event invokes the
  remote function again: in every run of the view the function is invoked once.
\<close>
theorem fetch_failure_shows_error:
  "(failed r \<longrightarrow>
      tokenError (fetchMapboxToken r s) \<and>
      mapboxToken (fetchMapboxToken r s) = mapboxToken s \<and>
      render_fetched (fetchMapboxToken r s) =
        ErrorMessage ''Mapbox token not configured. Please contact administrator.'') \<and>
   (failed r \<and> mounted s \<and> fetch_pending s \<longrightarrow>
      render_fetched (fold step_fetched later (step_fetched (FetchSettled r) s)) =
        ErrorMessage ''Mapbox token not configured. Please contact administrator.'' \<and>
      invoked (fold step_fetched later (step_fetched (FetchSettled r) s)) = invoked s) \<and>
   invoked (run_fetched as evs) = [''get-mapbox-token'']"
proof (intro conjI impI)
  assume f: "failed r"
  then show "tokenError (fetchMapboxToken r s)"
    and "mapboxToken (fetchMapboxToken r s) = mapboxToken s"
    and "render_fetched (fetchMapboxToken r s) =
        ErrorMessage ''Mapbox token not configured. Please contact administrator.''"
    by (simp_all add: failed_sets_error failed_keeps_token render_fetched_def)
next
  assume a: "failed r \<and> mounted s \<and> fetch_pending s"
  then have "tokenError (step_fetched (FetchSettled r) s)"
    by (simp add: Let_def frames failed_sets_error failed_keeps_token)
  then have "tokenError (fold step_fetched later (step_fetched (FetchSettled r) s))"
    by (rule fold_step_fetched_error_kept)
  then show "render_fetched (fold step_fetched later (step_fetched (FetchSettled r) s)) =
        ErrorMessage ''Mapbox token not configured. Please contact administrator.''"
    by (simp add: render_fetched_def)
  show "invoked (fold step_fetched later (step_fetched (FetchSettled r) s)) = invoked s"
    by (simp only: fold_step_fetched_invoked step_fetched_invoked)
next
  show "invoked (run_fetched as evs) = [''get-mapbox-token'']"
    by (simp add: run_fetched_def fold_step_fetched_invoked invoked_mount)
qed

text \<open>A rejected call: the error message stays through later events, and the function was
  invoked once.\<close>

theorem fetch_failure_shows_error_witness:
  "failed (Rejected ''network down'') \<and>
   mounted (mount_fetched [fire_alert]) \<and> fetch_pending (mount_fetched [fire_alert]) \<and>
   tokenError (fetchMapboxToken (Rejected ''network down'') (mount_fetched [fire_alert])) \<and>
   render_fetched (run_fetched [fire_alert]
       [FetchSettled (Rejected ''network down''), FetchSettled good_token, MapLoad,
        AlertsChanged [flood_alert]]) =
     ErrorMessage ''Mapbox token not configured. Please contact administrator.'' \<and>
   invoked (run_fetched [fire_alert]
       [FetchSettled (Rejected ''network down''), FetchSettled good_token, MapLoad,
        AlertsChanged [flood_alert]]) = [''get-mapbox-token'']"
proof -
  have h: "failed (Rejected ''network down'')" "mounted (mount_fetched [fire_alert])"
    "fetch_pending (mount_fetched [fire_alert])"
    by (simp_all add: failed_def view_defs)
  have e: "run_fetched [fire_alert]
       [FetchSettled (Rejected ''network down''), FetchSettled good_token, MapLoad,
        AlertsChanged [flood_alert]] =
     fold step_fetched [FetchSettled good_token, MapLoad, AlertsChanged [flood_alert]]
       (step_fetched (FetchSettled (Rejected ''network down'')) (mount_fetched [fire_alert]))"
    by (simp add: run_fetched_def del: step_fetched.simps)
  from fetch_failure_shows_error[where r = "Rejected ''network down''"
      and s = "mount_fetched [fire_alert]"
      and later = "[FetchSettled good_token, MapLoad, AlertsChanged [flood_alert]]"
      and as = "[fire_alert]"
      and evs = "[FetchSettled (Rejected ''network down''), FetchSettled good_token, MapLoad,
        AlertsChanged [flood_alert]]"] h
  show ?thesis unfolding e by blast
qed

text \<open>
  Claim C5. The icon of MEDICAL, POLICE and FIRE is the ambulance, the police car and the
  fire engine; the colour of PENDING, ASSIGNED and RESOLVED is red, orange and green in
  the Leaflet view and the pending, assigned and resolved classes in the Mapbox views. The
  marker of an alert carries the icon of its type and the colour of its status: in the
  inner HTML and the class name of the Mapbox element, and in the HTML of the Leaflet
  icon. Two alerts with the same type and status get the same icon and the same colour,
  whatever their other fields are.
\<close>

theorem icon_and_colour_by_type_and_status:
  \<open>getTypeIcon ''MEDICAL'' = [CHR 0xF0, CHR 0x9F, CHR 0x9A, CHR 0x91] \<and>
   getTypeIcon ''POLICE'' = [CHR 0xF0, CHR 0x9F, CHR 0x9A, CHR 0x94] \<and>
   getTypeIcon ''FIRE'' = [CHR 0xF0, CHR 0x9F, CHR 0x9A, CHR 0x92] \<and>
   getStatusColor_leaflet ''PENDING'' = ''#ef4444'' \<and>
   getStatusColor_leaflet ''ASSIGNED'' = ''#f59e0b'' \<and>
   getStatusColor_leaflet ''RESOLVED'' = ''#10b981'' \<and>
   getStatusColor ''PENDING'' = ''border-pending bg-pending/20'' \<and>
   getStatusColor ''ASSIGNED'' = ''border-assigned bg-assigned/20'' \<and>
   getStatusColor ''RESOLVED'' = ''border-resolved bg-resolved/20'' \<and>
   className (marker_el a) =
     ''w-10 h-10 flex items-center justify-center rounded-full border-2 shadow-lg cursor-pointer hover:scale-110 transition-transform '' @
     getStatusColor (status a) \<and>
   innerHTML (marker_el a) = ''<span class="text-lg">'' @ getTypeIcon (type a) @ ''</span>'' \<and>
   marker_element (marker_for mid a) = marker_el a \<and>
   icon_html (createCustomIcon t st) =
     ''\<newline>      <div style="\<newline>        background-color: '' @ getStatusColor_leaflet st @
     ''; \<newline>        width: 32px; \<newline>        height: 32px; \<newline>        border-radius: 50%; \<newline>        display: flex; \<newline>        align-items: center; \<newline>        justify-content: center; \<newline>        border: 2px solid white; \<newline>        box-shadow: 0 2px 4px rgba(0,0,0,0.2);\<newline>        font-size: 16px;\<newline>      ">\<newline>        '' @
     getTypeIcon t @ ''\<newline>      </div>\<newline>    '' \<and>
   (\<forall>i < length as.
      lf_icon (leaflet_markers as ! i) = createCustomIcon (type (as ! i)) (status (as ! i))) \<and>
   (type a = ''FIRE'' \<and> status a = ''PENDING'' \<longrightarrow>
      innerHTML (marker_el a) =
        ''<span class="text-lg">'' @ [CHR 0xF0, CHR 0x9F, CHR 0x9A, CHR 0x92] @ ''</span>'' \<and>
      className (marker_el a) =
        ''w-10 h-10 flex items-center justify-center rounded-full border-2 shadow-lg cursor-pointer hover:scale-110 transition-transform border-pending bg-pending/20'' \<and>
      sublist ''background-color: #ef4444;'' (icon_html (createCustomIcon (type a) (status a))) \<and>
      sublist [CHR 0xF0, CHR 0x9F, CHR 0x9A, CHR 0x92]
        (icon_html (createCustomIcon (type a) (status a)))) \<and>
   (type a = type b \<and> status a = status b \<longrightarrow>
      lf_icon (hd (leaflet_markers [a])) = lf_icon (hd (leaflet_markers [b])) \<and>
      className (marker_el a) = className (marker_el b) \<and>
      innerHTML (marker_el a) = innerHTML (marker_el b))\<close>
proof -
  have tags: \<open>getTypeIcon ''MEDICAL'' = [CHR 0xF0, CHR 0x9F, CHR 0x9A, CHR 0x91] \<and>
   getTypeIcon ''POLICE'' = [CHR 0xF0, CHR 0x9F, CHR 0x9A, CHR 0x94] \<and>
   getTypeIcon ''FIRE'' = [CHR 0xF0, CHR 0x9F, CHR 0x9A, CHR 0x92] \<and>
   getStatusColor_leaflet ''PENDING'' = ''#ef4444'' \<and>
   getStatusColor_leaflet ''ASSIGNED'' = ''#f59e0b'' \<and>
   getStatusColor_leaflet ''RESOLVED'' = ''#10b981'' \<and>
   getStatusColor ''PENDING'' = ''border-pending bg-pending/20'' \<and>
   getStatusColor ''ASSIGNED'' = ''border-assigned bg-assigned/20'' \<and>
   getStatusColor ''RESOLVED'' = ''border-resolved bg-resolved/20''\<close>
    by (simp add: getTypeIcon_def getStatusColor_leaflet_def getStatusColor_def ambulance_def
        police_car_def fire_engine_def)
  have el: \<open>className (marker_el a) =
     ''w-10 h-10 flex items-center justify-center rounded-full border-2 shadow-lg cursor-pointer hover:scale-110 transition-transform '' @
     getStatusColor (status a) \<and>
   innerHTML (marker_el a) = ''<span class="text-lg">'' @ getTypeIcon (type a) @ ''</span>'' \<and>
   marker_element (marker_for mid a) = marker_el a\<close>
    by (simp add: marker_el_def marker_for_def)
  have icon: \<open>icon_html (createCustomIcon t st) =
     ''\<newline>      <div style="\<newline>        background-color: '' @ getStatusColor_leaflet st @
     ''; \<newline>        width: 32px; \<newline>        height: 32px; \<newline>        border-radius: 50%; \<newline>        display: flex; \<newline>        align-items: center; \<newline>        justify-content: center; \<newline>        border: 2px solid white; \<newline>        box-shadow: 0 2px 4px rgba(0,0,0,0.2);\<newline>        font-size: 16px;\<newline>      ">\<newline>        '' @
     getTypeIcon t @ ''\<newline>      </div>\<newline>    ''\<close> for t st
    by (simp add: createCustomIcon_def Let_def)
  have lf: "\<forall>i < length as.
      lf_icon (leaflet_markers as ! i) = createCustomIcon (type (as ! i)) (status (as ! i))"
    by (simp add: leaflet_markers_def)
  have fire: \<open>innerHTML (marker_el a) =
        ''<span class="text-lg">'' @ [CHR 0xF0, CHR 0x9F, CHR 0x9A, CHR 0x92] @ ''</span>'' \<and>
      className (marker_el a) =
        ''w-10 h-10 flex items-center justify-center rounded-full border-2 shadow-lg cursor-pointer hover:scale-110 transition-transform border-pending bg-pending/20'' \<and>
      sublist ''background-color: #ef4444;'' (icon_html (createCustomIcon (type a) (status a))) \<and>
      sublist [CHR 0xF0, CHR 0x9F, CHR 0x9A, CHR 0x92]
        (icon_html (createCustomIcon (type a) (status a)))\<close>
    if f: \<open>type a = ''FIRE'' \<and> status a = ''PENDING''\<close>
  proof -
    from f have i: "getTypeIcon (type a) = [CHR 0xF0, CHR 0x9F, CHR 0x9A, CHR 0x92]"
      and c: "getStatusColor_leaflet (status a) = ''#ef4444''"
      and k: "getStatusColor (status a) = ''border-pending bg-pending/20''"
      using tags by simp_all
    have "\<exists>p q. icon_html (createCustomIcon (type a) (status a)) =
        p @ ''background-color: #ef4444;'' @ q"
      unfolding icon c
      by (intro exI[of _ "''\<newline>      <div style=\"\<newline>        ''"] exI) simp
    then have s1: "sublist ''background-color: #ef4444;''
        (icon_html (createCustomIcon (type a) (status a)))"
      unfolding sublist_def by blast
    have "\<exists>p q. icon_html (createCustomIcon (type a) (status a)) =
        p @ [CHR 0xF0, CHR 0x9F, CHR 0x9A, CHR 0x92] @ q"
      unfolding icon i by (metis append.assoc)
    then have s2: "sublist [CHR 0xF0, CHR 0x9F, CHR 0x9A, CHR 0x92]
        (icon_html (createCustomIcon (type a) (status a)))"
      unfolding sublist_def by blast
    from el i k s1 s2 show ?thesis by simp
  qed
  have same: "lf_icon (hd (leaflet_markers [a])) = lf_icon (hd (leaflet_markers [b])) \<and>
      className (marker_el a) = className (marker_el b) \<and>
      innerHTML (marker_el a) = innerHTML (marker_el b)"
    if "type a = type b \<and> status a = status b"
    using that by (simp add: leaflet_markers_def marker_el_def)
  from tags el icon[of t st] lf fire same show ?thesis by blast
qed

text \<open>
  Two different FIRE alerts that are PENDING: the same fire engine and the same pending
  colour on both.
\<close>

theorem icon_and_colour_by_type_and_status_witness:
  \<open>type fire_alert = ''FIRE'' \<and> status fire_alert = ''PENDING'' \<and>
   type fire_alert = type (fire_alert\<lparr>alert_id := ''a9'', sosId := ''S9'', latitude := 0\<rparr>) \<and>
   status fire_alert = status (fire_alert\<lparr>alert_id := ''a9'', sosId := ''S9'', latitude := 0\<rparr>) \<and>
   fire_alert \<noteq> fire_alert\<lparr>alert_id := ''a9'', sosId := ''S9'', latitude := 0\<rparr> \<and>
   (0::nat) < length [fire_alert] \<and>
   lf_icon (leaflet_markers [fire_alert] ! 0) = createCustomIcon ''FIRE'' ''PENDING'' \<and>
   innerHTML (marker_el fire_alert) =
     ''<span class="text-lg">'' @ [CHR 0xF0, CHR 0x9F, CHR 0x9A, CHR 0x92] @ ''</span>'' \<and>
   className (marker_el fire_alert) =
     ''w-10 h-10 flex items-center justify-center rounded-full border-2 shadow-lg cursor-pointer hover:scale-110 transition-transform border-pending bg-pending/20'' \<and>
   sublist ''background-color: #ef4444;'' (icon_html (createCustomIcon ''FIRE'' ''PENDING'')) \<and>
   className (marker_el fire_alert) =
     className (marker_el (fire_alert\<lparr>alert_id := ''a9'', sosId := ''S9'', latitude := 0\<rparr>)) \<and>
   innerHTML (marker_el fire_alert) =
     innerHTML (marker_el (fire_alert\<lparr>alert_id := ''a9'', sosId := ''S9'', latitude := 0\<rparr>)) \<and>
   lf_icon (hd (leaflet_markers [fire_alert])) =
     lf_icon (hd (leaflet_markers [fire_alert\<lparr>alert_id := ''a9'', sosId := ''S9'', latitude := 0\<rparr>]))\<close>
proof -
  have h: "type fire_alert = ''FIRE''" "status fire_alert = ''PENDING''"
    "type (fire_alert\<lparr>alert_id := ''a9'', sosId := ''S9'', latitude := 0\<rparr>) = ''FIRE''"
    "status (fire_alert\<lparr>alert_id := ''a9'', sosId := ''S9'', latitude := 0\<rparr>) = ''PENDING''"
    "fire_alert \<noteq> fire_alert\<lparr>alert_id := ''a9'', sosId := ''S9'', latitude := 0\<rparr>"
    by (simp_all add: fire_alert_def)
  note t = icon_and_colour_by_type_and_status[where a = fire_alert and mid = None
      and t = "''FIRE''" and st = "''PENDING''" and as = "[fire_alert]"
      and b = "fire_alert\<lparr>alert_id := ''a9'', sosId := ''S9'', latitude := 0\<rparr>"]
  note markers = t[THEN conjunct2, THEN conjunct2, THEN conjunct2, THEN conjunct2, THEN conjunct2, THEN conjunct2, THEN conjunct2, THEN conjunct2, THEN conjunct2, THEN conjunct2, THEN conjunct2, THEN conjunct2, THEN conjunct2, THEN conjunct1]
  note fire = t[THEN conjunct2, THEN conjunct2, THEN conjunct2, THEN conjunct2, THEN conjunct2, THEN conjunct2, THEN conjunct2, THEN conjunct2, THEN conjunct2, THEN conjunct2, THEN conjunct2, THEN conjunct2, THEN conjunct2, THEN conjunct2, THEN conjunct1]
  note same = t[THEN conjunct2, THEN conjunct2, THEN conjunct2, THEN conjunct2, THEN conjunct2, THEN conjunct2, THEN conjunct2, THEN conjunct2, THEN conjunct2, THEN conjunct2, THEN conjunct2, THEN conjunct2, THEN conjunct2, THEN conjunct2, THEN conjunct2]
  have z: "(0::nat) < length [fire_alert]" by simp
  from markers[rule_format, OF z]
  have lf: "lf_icon (leaflet_markers [fire_alert] ! 0) = createCustomIcon ''FIRE'' ''PENDING''"
    by (simp add: h)
  have hf: "type fire_alert = ''FIRE'' \<and> status fire_alert = ''PENDING''"
    using h by simp
  have hs: "type fire_alert =
      type (fire_alert\<lparr>alert_id := ''a9'', sosId := ''S9'', latitude := 0\<rparr>) \<and>
    status fire_alert =
      status (fire_alert\<lparr>alert_id := ''a9'', sosId := ''S9'', latitude := 0\<rparr>)"
    using h by simp
  note f = fire[rule_format, OF hf, unfolded h(1,2)]
  note e = same[rule_format, OF hs]
  from h(5) z lf f e hf hs show ?thesis by blast
qed

text \<open>
  Claim C6, as the code has it. A call that succeeds sets the token state to the token of
  the response, and leaves the error flag alone, when the response carries a token that is
  not the empty string. When the data is missing, has no token, or has the empty string as
  its token, the error flag is set and the token state is left as it was, which is empty
  as long as the fetch is pending.
\<close>
theorem token_response:
  "(resp_error resp = None \<and> resp_data resp = Some d \<and> token d = Some t \<and> t \<noteq> [] \<longrightarrow>
      mapboxToken (fetchMapboxToken (Resolved resp) s) = t \<and>
      tokenError (fetchMapboxToken (Resolved resp) s) = tokenError s) \<and>
   (resp_error resp = None \<and>
    (resp_data resp = None \<or> resp_data resp = Some d \<and> (token d = None \<or> token d = Some [])) \<longrightarrow>
      tokenError (fetchMapboxToken (Resolved resp) s) \<and>
      mapboxToken (fetchMapboxToken (Resolved resp) s) = mapboxToken s) \<and>
   (fetch_pending (run_fetched as evs) \<longrightarrow>
      mapboxToken (run_fetched as evs) = [] \<and> \<not> tokenError (run_fetched as evs))"
  using fetch_inv_run[of as evs]
  by (auto simp add: fetchMapboxToken_def fetch_inv_def)

text \<open>A response with a token, and one without, while the fetch is pending.\<close>

theorem token_response_witness:
  "fetch_pending (run_fetched [fire_alert] [AlertsChanged []]) \<and>
   mapboxToken (run_fetched [fire_alert] [AlertsChanged []]) = [] \<and>
   mapboxToken (fetchMapboxToken good_token (run_fetched [fire_alert] [AlertsChanged []])) = ''pk.test'' \<and>
   \<not> tokenError (fetchMapboxToken good_token (run_fetched [fire_alert] [AlertsChanged []])) \<and>
   tokenError (fetchMapboxToken (Resolved \<lparr>resp_data = Some \<lparr>token = None\<rparr>, resp_error = None\<rparr>)
     (run_fetched [fire_alert] [AlertsChanged []])) \<and>
   mapboxToken (fetchMapboxToken (Resolved \<lparr>resp_data = Some \<lparr>token = None\<rparr>, resp_error = None\<rparr>)
     (run_fetched [fire_alert] [AlertsChanged []])) = []"
proof -
  have p: "fetch_pending (run_fetched [fire_alert] [AlertsChanged []])"
    by (simp add: view_defs)
  from token_response[of "\<lparr>resp_data = Some \<lparr>token = Some ''pk.test''\<rparr>, resp_error = None\<rparr>"
      "\<lparr>token = Some ''pk.test''\<rparr>" "''pk.test''" "run_fetched [fire_alert] [AlertsChanged []]"
      "[fire_alert]" "[AlertsChanged []]"]
    token_response[of "\<lparr>resp_data = Some \<lparr>token = None\<rparr>, resp_error = None\<rparr>"
      "\<lparr>token = None\<rparr>" t "run_fetched [fire_alert] [AlertsChanged []]"
      "[fire_alert]" "[AlertsChanged []]"] p
  show ?thesis by (simp add: good_token_def)
qed

text \<open>A response whose token is the empty string has a token field, and sets the error flag.\<close>

theorem token_response_counterexample:
  "token \<lparr>token = Some []\<rparr> \<noteq> None \<and>
   tokenError (fetchMapboxToken (Resolved \<lparr>resp_data = Some \<lparr>token = Some []\<rparr>, resp_error = None\<rparr>)
     (mount_fetched []))"
  by (simp add: fetchMapboxToken_def)


text \<open>
  Claim C7. The map-init effect does nothing, and returns no cleanup, unless the container
  is there and the token is not empty. Otherwise it constructs the map with the centre
  (77.2090, 28.6139) and zoom 10, adds the navigation control at the top right, registers
  the load callback, and leaves the loaded flag as it is. The only event that turns the
  loaded flag on is the load event of a map with that listener, and in every state either
  view reaches with the flag on, the map is initialised, has fired \<open>load\<close> and has not been
  removed.
\<close>
theorem map_init_guard_and_load:
  "(\<not> mapContainer s \<or> mapboxToken s = [] \<longrightarrow>
      map_init_effect s = s \<and> \<not> map_init_returns_cleanup s) \<and>
   (mapContainer s \<and> mapboxToken s \<noteq> [] \<longrightarrow>
      map_current (map_init_effect s) =
        Some \<lparr>map_id = next_map s, map_accessToken = mapboxToken s,
              map_style = ''mapbox://styles/mapbox/light-v11'',
              camera = CenterZoom (77.2090, 28.6139) 10,
              controls = [(''NavigationControl'', ''top-right'')],
              load_listener = True, load_fired = False, map_removed = False\<rparr> \<and>
      isMapLoaded (map_init_effect s) = isMapLoaded s \<and>
      map_init_returns_cleanup s) \<and>
   (\<not> isMapLoaded s \<and> isMapLoaded (step_fetched e s) \<longrightarrow> e = MapLoad \<and> load_enabled s) \<and>
   (\<not> isMapLoaded s \<and> isMapLoaded (step_typed e s) \<longrightarrow> e = MapLoad \<and> load_enabled s) \<and>
   (isMapLoaded (run_fetched as evs) \<longrightarrow> map_ready (run_fetched as evs)) \<and>
   (isMapLoaded (run_typed as evs) \<longrightarrow> map_ready (run_typed as evs))"
proof (intro conjI impI)
  assume "\<not> mapContainer s \<or> mapboxToken s = []"
  then show "map_init_effect s = s" and "\<not> map_init_returns_cleanup s"
    by (auto simp add: map_init_effect_def map_init_returns_cleanup_def)
next
  assume "mapContainer s \<and> mapboxToken s \<noteq> []"
  then show "map_current (map_init_effect s) =
        Some \<lparr>map_id = next_map s, map_accessToken = mapboxToken s,
              map_style = ''mapbox://styles/mapbox/light-v11'',
              camera = CenterZoom (77.2090, 28.6139) 10,
              controls = [(''NavigationControl'', ''top-right'')],
              load_listener = True, load_fired = False, map_removed = False\<rparr>"
    and "isMapLoaded (map_init_effect s) = isMapLoaded s"
    and "map_init_returns_cleanup s"
    by (simp_all add: map_init_effect_def map_init_returns_cleanup_def Let_def new_map_def
        addControl_def on_load_def)
next
  assume "\<not> isMapLoaded s \<and> isMapLoaded (step_fetched e s)"
  then show "e = MapLoad" and "load_enabled s"
    using step_fetched_loads[of s e] by simp_all
next
  assume "\<not> isMapLoaded s \<and> isMapLoaded (step_typed e s)"
  then show "e = MapLoad" and "load_enabled s"
    using step_typed_loads[of s e] by simp_all
next
  assume "isMapLoaded (run_fetched as evs)"
  then show "map_ready (run_fetched as evs)"
    using life_inv_run_fetched[of as evs] by (simp add: life_inv_def inv0_def)
next
  assume "isMapLoaded (run_typed as evs)"
  then show "map_ready (run_typed as evs)"
    using life_inv_run_typed[of as evs] by (simp add: life_inv_def inv0_def)
qed

text \<open>The guard right after the mount, the map of a typed token, and the load event in both
  views.\<close>

theorem map_init_guard_and_load_witness:
  "\<not> mapContainer (mount_fetched [fire_alert]) \<and>
   map_init_effect (mount_fetched [fire_alert]) = mount_fetched [fire_alert] \<and>
   mapContainer (rerender render_typed (onChange ''pk.test'' (mount_typed []))) \<and>
   mapboxToken (rerender render_typed (onChange ''pk.test'' (mount_typed []))) \<noteq> [] \<and>
   map_option camera
     (map_current (map_init_effect (rerender render_typed (onChange ''pk.test'' (mount_typed []))))) =
     Some (CenterZoom (77.2090, 28.6139) 10) \<and>
   \<not> isMapLoaded (run_fetched [fire_alert] [FetchSettled good_token]) \<and>
   isMapLoaded (step_fetched MapLoad (run_fetched [fire_alert] [FetchSettled good_token])) \<and>
   load_enabled (run_fetched [fire_alert] [FetchSettled good_token]) \<and>
   \<not> isMapLoaded (run_typed [] [TokenTyped ''pk.test'']) \<and>
   isMapLoaded (step_typed MapLoad (run_typed [] [TokenTyped ''pk.test''])) \<and>
   isMapLoaded (run_fetched [fire_alert] [FetchSettled good_token, MapLoad]) \<and>
   map_ready (run_fetched [fire_alert] [FetchSettled good_token, MapLoad]) \<and>
   isMapLoaded (run_typed [] [TokenTyped ''pk.test'', MapLoad]) \<and>
   map_ready (run_typed [] [TokenTyped ''pk.test'', MapLoad])"
proof -
  have h: "\<not> mapContainer (mount_fetched [fire_alert])"
    "mapContainer (rerender render_typed (onChange ''pk.test'' (mount_typed [])))"
    "mapboxToken (rerender render_typed (onChange ''pk.test'' (mount_typed []))) \<noteq> []"
    "\<not> isMapLoaded (run_fetched [fire_alert] [FetchSettled good_token])"
    "isMapLoaded (step_fetched MapLoad (run_fetched [fire_alert] [FetchSettled good_token]))"
    "\<not> isMapLoaded (run_typed [] [TokenTyped ''pk.test''])"
    "isMapLoaded (step_typed MapLoad (run_typed [] [TokenTyped ''pk.test'']))"
    "isMapLoaded (run_fetched [fire_alert] [FetchSettled good_token, MapLoad])"
    "isMapLoaded (run_typed [] [TokenTyped ''pk.test'', MapLoad])"
    by (simp_all add: view_defs)
  from map_init_guard_and_load[where s = "mount_fetched [fire_alert]"]
    map_init_guard_and_load[where s = "rerender render_typed (onChange ''pk.test'' (mount_typed []))"]
    map_init_guard_and_load[where s = "run_fetched [fire_alert] [FetchSettled good_token]"
      and e = MapLoad and as = "[fire_alert]" and evs = "[FetchSettled good_token, MapLoad]"]
    map_init_guard_and_load[where s = "run_typed [] [TokenTyped ''pk.test'']"
      and e = MapLoad and as = "[]" and evs = "[TokenTyped ''pk.test'', MapLoad]"] h
  show ?thesis by simp
qed

text \<open>
  Claim C8. The cleanup takes every marker of \<open>markers.current\<close> off the map, empties the
  collection, removes the map and turns the loaded flag off. After the unmount of either
  Mapbox view, in whatever state it was, the collection is empty, no marker is on a map,
  no map is live and the loaded flag is off.
\<close>
theorem unmount_releases:
  "markers_current (map_init_cleanup s) = [] \<and>
   \<not> isMapLoaded (map_init_cleanup s) \<and>
   (\<forall>h \<in> set (markers_current s). \<not> attached (map_init_cleanup s) h) \<and>
   map_current (map_init_cleanup s) =
     map_option (\<lambda>m. m\<lparr>map_removed := True\<rparr>) (map_current s) \<and>
   \<not> map_live (map_init_cleanup s) \<and>
   markers_current (step_fetched Unmount (run_fetched as evs)) = [] \<and>
   rendered (step_fetched Unmount (run_fetched as evs)) = [] \<and>
   \<not> map_live (step_fetched Unmount (run_fetched as evs)) \<and>
   \<not> isMapLoaded (step_fetched Unmount (run_fetched as evs)) \<and>
   \<not> mounted (step_fetched Unmount (run_fetched as evs)) \<and>
   markers_current (step_typed Unmount (run_typed as evs)) = [] \<and>
   rendered (step_typed Unmount (run_typed as evs)) = [] \<and>
   \<not> map_live (step_typed Unmount (run_typed as evs)) \<and>
   \<not> isMapLoaded (step_typed Unmount (run_typed as evs)) \<and>
   \<not> mounted (step_typed Unmount (run_typed as evs))"
proof -
  have gone: "idle t \<and> \<not> mounted t" if "life_inv t" "\<not> mounted t" for t
  proof -
    from that have "\<not> init_cleanup t" by (auto simp add: life_inv_def inv0_def)
    with that show ?thesis by (simp add: idle_of_inv life_inv0)
  qed
  have released: "idle (if mounted t then unmount t else t) \<and>
      \<not> mounted (if mounted t then unmount t else t)" if "life_inv t" for t
    using that gone[of t] inv_unmount(2,3)[of t] by (simp add: life_inv0)
  have "\<forall>h \<in> set (markers_current s). \<not> attached (map_init_cleanup s) h"
    by (auto simp add: map_init_cleanup_eq clear_markers_eq attached_def split: option.splits)
  moreover have "\<not> map_live (map_init_cleanup s)"
    by (simp add: map_init_cleanup_eq clear_markers_eq map_live_def split: option.splits)
  ultimately show ?thesis
    using released[OF life_inv_run_fetched, of as evs] released[OF life_inv_run_typed, of as evs]
    by (simp add: idle_def) (simp add: map_init_cleanup_eq clear_markers_eq)
qed

text \<open>Two markers on a live map before the cleanup, none after it.\<close>

theorem unmount_releases_witness:
  "markers_current (sync_state loaded_view) = [1, 2] \<and>
   attached (sync_state loaded_view) 1 \<and>
   attached (sync_state loaded_view) 2 \<and>
   map_live (sync_state loaded_view) \<and>
   \<not> attached (map_init_cleanup (sync_state loaded_view)) 1 \<and>
   \<not> attached (map_init_cleanup (sync_state loaded_view)) 2 \<and>
   \<not> map_live (map_init_cleanup (sync_state loaded_view)) \<and>
   markers_current (map_init_cleanup (sync_state loaded_view)) = [] \<and>
   rendered (run_fetched [fire_alert] [FetchSettled good_token, MapLoad]) = [0] \<and>
   rendered (step_fetched Unmount (run_fetched [fire_alert] [FetchSettled good_token, MapLoad])) = []"
proof -
  have h: "markers_current (sync_state loaded_view) = [1, 2]"
    "attached (sync_state loaded_view) 1" "attached (sync_state loaded_view) 2"
    "map_live (sync_state loaded_view)"
    "rendered (run_fetched [fire_alert] [FetchSettled good_token, MapLoad]) = [0]"
    by (simp_all add: view_defs attached_def map_live_def rendered_def)
  from unmount_releases[of "sync_state loaded_view" "[fire_alert]"
      "[FetchSettled good_token, MapLoad]"] h
  show ?thesis by simp
qed


text \<open>
  Claim C9. For a type outside MEDICAL, POLICE and FIRE the icon is the siren; for a status
  outside PENDING, ASSIGNED and RESOLVED the colour is the grey of the Leaflet view and the
  muted class of the Mapbox views. An alert outside both enumerations still gets its
  marker, with that icon and colour, in the Leaflet view and from the marker-sync effect,
  which returns for it when its latitude is one the SDK takes.
\<close>
theorem icon_and_colour_fallback:
  \<open>(t \<notin> {''MEDICAL'', ''POLICE'', ''FIRE''} \<longrightarrow>
      getTypeIcon t = [CHR 0xF0, CHR 0x9F, CHR 0x9A, CHR 0xA8]) \<and>
   (st \<notin> {''PENDING'', ''ASSIGNED'', ''RESOLVED''} \<longrightarrow>
      getStatusColor_leaflet st = ''#6b7280'' \<and>
      getStatusColor st = ''border-muted bg-muted/20'') \<and>
   (type a \<notin> {''MEDICAL'', ''POLICE'', ''FIRE''} \<and>
    status a \<notin> {''PENDING'', ''ASSIGNED'', ''RESOLVED''} \<longrightarrow>
      length (leaflet_markers [a]) = 1 \<and>
      lf_icon (hd (leaflet_markers [a])) = createCustomIcon (type a) (status a) \<and>
      sublist (''background-color: #6b7280;'') (icon_html (createCustomIcon (type a) (status a))) \<and>
      sublist [CHR 0xF0, CHR 0x9F, CHR 0x9A, CHR 0xA8]
        (icon_html (createCustomIcon (type a) (status a))) \<and>
      innerHTML (marker_el a) =
        ''<span class="text-lg">'' @ [CHR 0xF0, CHR 0x9F, CHR 0x9A, CHR 0xA8] @ ''</span>'' \<and>
      className (marker_el a) =
        ''w-10 h-10 flex items-center justify-center rounded-full border-2 shadow-lg cursor-pointer hover:scale-110 transition-transform border-muted bg-muted/20'' \<and>
      marker_element (marker_for mid a) = marker_el a \<and>
      (map_current s = Some m \<and> isMapLoaded s \<and> alerts s = [a] \<and>
       valid_latitude (latitude a) \<longrightarrow>
         \<not> threw (marker_sync_effect s) \<and>
         markers_current (sync_state s) = [next_marker s] \<and>
         marker_store (sync_state s) (next_marker s) =
           Some (marker_for (Some (map_id m)) a)))\<close>
proof (intro conjI impI)
  assume "t \<notin> {''MEDICAL'', ''POLICE'', ''FIRE''}"
  then show "getTypeIcon t = [CHR 0xF0, CHR 0x9F, CHR 0x9A, CHR 0xA8]"
    by (simp add: getTypeIcon_def siren_def)
next
  assume "st \<notin> {''PENDING'', ''ASSIGNED'', ''RESOLVED''}"
  then show "getStatusColor_leaflet st = ''#6b7280''"
    and "getStatusColor st = ''border-muted bg-muted/20''"
    by (simp_all add: getStatusColor_leaflet_def getStatusColor_def)
next
  assume out: "type a \<notin> {''MEDICAL'', ''POLICE'', ''FIRE''} \<and>
    status a \<notin> {''PENDING'', ''ASSIGNED'', ''RESOLVED''}"
  then have icon: "getTypeIcon (type a) = [CHR 0xF0, CHR 0x9F, CHR 0x9A, CHR 0xA8]"
    and col: "getStatusColor_leaflet (status a) = ''#6b7280''"
    and cls: "getStatusColor (status a) = ''border-muted bg-muted/20''"
    by (simp_all add: getTypeIcon_def siren_def getStatusColor_leaflet_def getStatusColor_def)
  show "length (leaflet_markers [a]) = 1"
    and "lf_icon (hd (leaflet_markers [a])) = createCustomIcon (type a) (status a)"
    by (simp_all add: leaflet_markers_def)
  have "\<exists>p q. icon_html (createCustomIcon (type a) (status a)) =
      p @ ''background-color: #6b7280;'' @ q"
    unfolding createCustomIcon_def Let_def col divIcon.simps
    by (intro exI[of _ "''\<newline>      <div style=\"\<newline>        ''"] exI) simp
  then show "sublist (''background-color: #6b7280;'')
      (icon_html (createCustomIcon (type a) (status a)))"
    unfolding sublist_def by blast
  have "\<exists>p q. icon_html (createCustomIcon (type a) (status a)) =
      p @ [CHR 0xF0, CHR 0x9F, CHR 0x9A, CHR 0xA8] @ q"
    unfolding createCustomIcon_def Let_def icon divIcon.simps
    by (metis append.assoc)
  then show "sublist [CHR 0xF0, CHR 0x9F, CHR 0x9A, CHR 0xA8]
      (icon_html (createCustomIcon (type a) (status a)))"
    unfolding sublist_def by blast
  show "innerHTML (marker_el a) =
        ''<span class=\"text-lg\">'' @ [CHR 0xF0, CHR 0x9F, CHR 0x9A, CHR 0xA8] @ ''</span>''"
    by (simp add: marker_el_def icon)
  show "className (marker_el a) =
        ''w-10 h-10 flex items-center justify-center rounded-full border-2 shadow-lg cursor-pointer hover:scale-110 transition-transform border-muted bg-muted/20''"
    by (simp add: marker_el_def cls)
  show "marker_element (marker_for mid a) = marker_el a"
    by (simp add: marker_for_def)
  assume l: "map_current s = Some m \<and> isMapLoaded s \<and> alerts s = [a] \<and>
       valid_latitude (latitude a)"
  then have p: "placed (alerts s) = [a]"
    by (simp add: placed_def)
  from l p show "\<not> threw (marker_sync_effect s)"
    and "markers_current (sync_state s) = [next_marker s]"
    and "marker_store (sync_state s) (next_marker s) =
           Some (marker_for (Some (map_id m)) a)"
    by (simp_all add: sync_markers sync_store marker_sync_loaded(2))
qed

text \<open>A FLOOD alert that is ESCALATED.\<close>

theorem icon_and_colour_fallback_witness:
  \<open>''FLOOD'' \<notin> {''MEDICAL'', ''POLICE'', ''FIRE''} \<and>
   ''ESCALATED'' \<notin> {''PENDING'', ''ASSIGNED'', ''RESOLVED''} \<and>
   type flood_alert = ''FLOOD'' \<and> status flood_alert = ''ESCALATED'' \<and>
   getTypeIcon ''FLOOD'' = [CHR 0xF0, CHR 0x9F, CHR 0x9A, CHR 0xA8] \<and>
   getStatusColor_leaflet ''ESCALATED'' = ''#6b7280'' \<and>
   getStatusColor ''ESCALATED'' = ''border-muted bg-muted/20'' \<and>
   innerHTML (marker_el flood_alert) =
     ''<span class="text-lg">'' @ [CHR 0xF0, CHR 0x9F, CHR 0x9A, CHR 0xA8] @ ''</span>'' \<and>
   isMapLoaded (loaded_view\<lparr>alerts := [flood_alert]\<rparr>) \<and>
   valid_latitude (latitude flood_alert) \<and>
   \<not> threw (marker_sync_effect (loaded_view\<lparr>alerts := [flood_alert]\<rparr>)) \<and>
   markers_current (sync_state (loaded_view\<lparr>alerts := [flood_alert]\<rparr>)) = [1]\<close>
proof -
  obtain m where m: "map_current (loaded_view\<lparr>alerts := [flood_alert]\<rparr>) = Some m"
    using loaded_view_fields(5) by (cases "map_current loaded_view") simp_all
  have h: "type flood_alert = ''FLOOD''" "status flood_alert = ''ESCALATED''"
    "isMapLoaded (loaded_view\<lparr>alerts := [flood_alert]\<rparr>)"
    "alerts (loaded_view\<lparr>alerts := [flood_alert]\<rparr>) = [flood_alert]"
    "next_marker (loaded_view\<lparr>alerts := [flood_alert]\<rparr>) = 1"
    "valid_latitude (latitude flood_alert)"
    by (simp_all add: flood_alert_def loaded_view_fields valid_latitude_def)
  from icon_and_colour_fallback[where t = "''FLOOD''" and st = "''ESCALATED''"
      and a = flood_alert and s = "loaded_view\<lparr>alerts := [flood_alert]\<rparr>" and m = m] m h
  show ?thesis by simp
qed

text \<open>
  Claim C10. The view with the typed token renders the map area exactly when the token is
  not empty; a change of the input sets the token state to the input's value; the handler
  of the Load Map button, and a click on the button, leave the state as it is; and the
  map-init effect hands the token to the SDK as it is, without a check.
\<close>
theorem typed_token_gate:
  "(render_typed s = MapArea \<longleftrightarrow> mapboxToken s \<noteq> []) \<and>
   onChange v s = s\<lparr>mapboxToken := v\<rparr> \<and>
   (mounted s \<and> mapboxToken s = [] \<longrightarrow> mapboxToken (step_typed (TokenTyped v) s) = v) \<and>
   handleTokenSubmit s = s \<and>
   step_typed SubmitClicked s = s \<and>
   (mapContainer s \<and> mapboxToken s \<noteq> [] \<longrightarrow>
      accessToken (map_init_effect s) = mapboxToken s \<and>
      map_option map_accessToken (map_current (map_init_effect s)) = Some (mapboxToken s))"
proof (intro conjI impI)
  show "render_typed s = MapArea \<longleftrightarrow> mapboxToken s \<noteq> []"
    by (simp add: render_typed_def)
  show "onChange v s = s\<lparr>mapboxToken := v\<rparr>"
    by (simp add: onChange_def)
  show "handleTokenSubmit s = s"
    by (simp add: handleTokenSubmit_def)
  show "step_typed SubmitClicked s = s"
    by (simp add: render_typed_def trim_def)
  show "mapboxToken (step_typed (TokenTyped v) s) = v" if "mounted s \<and> mapboxToken s = []"
    using that by (simp add: Let_def frames render_typed_def onChange_def)
  assume "mapContainer s \<and> mapboxToken s \<noteq> []"
  then show "accessToken (map_init_effect s) = mapboxToken s"
    and "map_option map_accessToken (map_current (map_init_effect s)) = Some (mapboxToken s)"
    by (simp_all add: map_init_effect_def Let_def new_map_def addControl_def on_load_def)
qed

text \<open>One typed character replaces the form by the map area; any text is used as the token.\<close>

theorem typed_token_gate_witness:
  "mounted (mount_typed [fire_alert]) \<and> mapboxToken (mount_typed [fire_alert]) = [] \<and>
   render_typed (mount_typed [fire_alert]) \<noteq> MapArea \<and>
   mapboxToken (step_typed (TokenTyped ''x'') (mount_typed [fire_alert])) = ''x'' \<and>
   render_typed (step_typed (TokenTyped ''x'') (mount_typed [fire_alert])) = MapArea \<and>
   mapContainer (rerender render_typed (onChange ''not a token'' (mount_typed []))) \<and>
   mapboxToken (rerender render_typed (onChange ''not a token'' (mount_typed []))) \<noteq> [] \<and>
   accessToken (map_init_effect (rerender render_typed (onChange ''not a token'' (mount_typed [])))) =
     ''not a token''"
proof -
  have h: "mounted (mount_typed [fire_alert])" "mapboxToken (mount_typed [fire_alert]) = []"
    "mapContainer (rerender render_typed (onChange ''not a token'' (mount_typed [])))"
    "mapboxToken (rerender render_typed (onChange ''not a token'' (mount_typed []))) = ''not a token''"
    by (simp_all add: view_defs)
  from typed_token_gate[of "mount_typed [fire_alert]" "''x''"]
    typed_token_gate[of "step_typed (TokenTyped ''x'') (mount_typed [fire_alert])"]
    typed_token_gate[of "rerender render_typed (onChange ''not a token'' (mount_typed []))"] h
  show ?thesis by (simp del: step_typed.simps)
qed

end
